theory Spec2Isabelle
  imports Complex_Main "HOL-Library.Sublist"
begin

section \<open>Python's \<open>queue.Queue\<close>\<close>

text \<open>
  The three queues of the program (the capture queue of \<open>VideoPipeline\<close>, the task and
  the result queue of the two workers) are instances of \<open>queue.Queue\<close>. Each method of
  \<open>queue.Queue\<close> runs under the queue's mutex, so a method call is one atomic step on the
  buffered items. \<open>maxsize \<le> 0\<close> means that the queue is unbounded, as in the library.
  The non-blocking methods raise \<open>queue.Full\<close> and \<open>queue.Empty\<close>; the model returns
  them as the left summand.
\<close>

datatype queue_error = Full | Empty

record 'a py_queue =
  maxsize :: int
  items :: "'a list"

definition Queue :: "int \<Rightarrow> 'a py_queue" where
  "Queue n = \<lparr>maxsize = n, items = []\<rparr>"

definition qsize :: "'a py_queue \<Rightarrow> nat" where
  "qsize q = length (items q)"

definition full :: "'a py_queue \<Rightarrow> bool" where
  "full q = (0 < maxsize q \<and> maxsize q \<le> int (qsize q))"

definition put_nowait :: "'a py_queue \<Rightarrow> 'a \<Rightarrow> queue_error + 'a py_queue" where
  "put_nowait q x = (if full q then Inl Full else Inr (q\<lparr>items := items q @ [x]\<rparr>))"

definition get_nowait :: "'a py_queue \<Rightarrow> queue_error + ('a \<times> 'a py_queue)" where
  "get_nowait q =
     (case items q of [] \<Rightarrow> Inl Empty | x # xs \<Rightarrow> Inr (x, q\<lparr>items := xs\<rparr>))"

section \<open>The capture queue of \<open>VideoPipeline\<close>\<close>

text \<open>
  \<open>VideoPipeline.__init__\<close> creates \<open>queue.Queue(maxsize=2)\<close>. A frame is an opaque
  pixel buffer (type \<open>'f\<close>); \<open>frame.copy()\<close> yields an equal buffer.
\<close>

definition frame_queue_init :: "'f py_queue" where
  "frame_queue_init = Queue 2"

text \<open>
  The tail of \<open>VideoPipeline._capture_loop\<close> for a frame that was read successfully:
  \<^verbatim>\<open>
  try:
      if self.frame_queue.full():
          try:
              self.frame_queue.get_nowait()
          except queue.Empty:
              pass
      self.frame_queue.put_nowait(frame.copy())
  except queue.Full:
      pass
  \<close>
\<close>

definition capture_push :: "'f py_queue \<Rightarrow> 'f \<Rightarrow> 'f py_queue" where
  "capture_push q frame =
     (let q1 = (if full q
                then (case get_nowait q of Inr (old, q') \<Rightarrow> q' | Inl e \<Rightarrow> q)
                else q)
      in case put_nowait q1 frame of Inr q2 \<Rightarrow> q2 | Inl e \<Rightarrow> q1)"

text \<open>\<open>VideoPipeline.read_frame\<close>: the consumer's non-blocking read.\<close>

definition read_frame :: "'f py_queue \<Rightarrow> (bool \<times> 'f option) \<times> 'f py_queue" where
  "read_frame q =
     (case get_nowait q of
        Inr (frame, q') \<Rightarrow> ((True, Some frame), q')
      | Inl e \<Rightarrow> ((False, None), q))"

text \<open>
  The block above runs on the capture thread, \<open>read_frame\<close> on the main thread, and
  the two threads share nothing but the queue. A call of a queue method is one atomic
  step; between two calls of one thread the other thread may run. The capture thread is
  at one of three points: before \<open>full()\<close> (\<open>Idle\<close>; the camera then delivers the next
  frame), before \<open>get_nowait()\<close> with the frame in hand (\<open>Evict\<close>: \<open>full()\<close> returned
  true), or before \<open>put_nowait\<close> (\<open>Store\<close>). The state keeps two histories beside the
  queue: the frames that \<open>put_nowait\<close> stored and the frames that \<open>read_frame\<close> returned.
\<close>

datatype 'f producer = Idle | Evict 'f | Store 'f

record 'f capture_state =
  frame_queue :: "'f py_queue"
  producer :: "'f producer"
  stored :: "'f list"
  consumed :: "'f list"

definition capture_init :: "'f capture_state" where
  "capture_init =
     \<lparr>frame_queue = frame_queue_init, producer = Idle, stored = [], consumed = []\<rparr>"

text \<open>
  The next queue call of the capture thread; \<open>frame\<close> is the frame that the camera
  delivers if the thread starts a new push. \<open>except queue.Empty: pass\<close> goes on to
  \<open>put_nowait\<close>; \<open>except queue.Full: pass\<close> skips the frame.
\<close>

definition producer_step :: "'f capture_state \<Rightarrow> 'f \<Rightarrow> 'f capture_state" where
  "producer_step st frame =
     (case producer st of
        Idle \<Rightarrow> st\<lparr>producer := (if full (frame_queue st) then Evict frame else Store frame)\<rparr>
      | Evict f \<Rightarrow>
          (case get_nowait (frame_queue st) of
             Inr (old, q') \<Rightarrow> st\<lparr>frame_queue := q', producer := Store f\<rparr>
           | Inl e \<Rightarrow> st\<lparr>producer := Store f\<rparr>)
      | Store f \<Rightarrow>
          (case put_nowait (frame_queue st) f of
             Inr q' \<Rightarrow> st\<lparr>frame_queue := q', producer := Idle, stored := stored st @ [f]\<rparr>
           | Inl e \<Rightarrow> st\<lparr>producer := Idle\<rparr>))"

text \<open>A call of \<open>read_frame\<close> by the main thread.\<close>

definition consumer_step :: "'f capture_state \<Rightarrow> 'f capture_state" where
  "consumer_step st =
     (case read_frame (frame_queue st) of
        ((success, Some frame), q') \<Rightarrow> st\<lparr>frame_queue := q', consumed := consumed st @ [frame]\<rparr>
      | ((success, None), q') \<Rightarrow> st\<lparr>frame_queue := q'\<rparr>)"

text \<open>
  A schedule says which thread makes the next queue call; a run follows a schedule. Every
  interleaving of the calls of the two threads is a schedule.
\<close>

datatype 'f thread_event = Producer 'f | Consumer

fun thread_step :: "'f capture_state \<Rightarrow> 'f thread_event \<Rightarrow> 'f capture_state" where
  "thread_step st (Producer frame) = producer_step st frame"
| "thread_step st Consumer = consumer_step st"

definition thread_run :: "'f capture_state \<Rightarrow> 'f thread_event list \<Rightarrow> 'f capture_state" where
  "thread_run st evs = foldl thread_step st evs"

text \<open>
  A push that no read interrupts: the capture thread makes its two or three calls in a
  row.
\<close>

definition push_uninterrupted :: "'f capture_state \<Rightarrow> 'f \<Rightarrow> 'f capture_state" where
  "push_uninterrupted st frame =
     (let s1 = producer_step st frame
      in case producer s1 of
           Idle \<Rightarrow> s1
         | Evict f \<Rightarrow> producer_step (producer_step s1 frame) frame
         | Store f \<Rightarrow> producer_step s1 frame)"

text \<open>The consumer drains the queue: it calls \<open>read_frame\<close> until the call reports no frame.\<close>

function drain :: "'f py_queue \<Rightarrow> 'f list" where
  "drain q =
     (case read_frame q of
        ((True, Some frame), q') \<Rightarrow> frame # drain q'
      | _ \<Rightarrow> [])"
  by pat_completeness auto
termination
  by (relation "measure qsize")
     (auto simp: read_frame_def get_nowait_def qsize_def split: list.splits)

declare drain.simps [simp del]

text \<open>
  The invariant of the runs: the bound of the queue; before \<open>put_nowait\<close> the queue holds
  at most one frame; the queue holds a run of the frames stored last; and the frames read
  so far, followed by the frames in the queue, are a subsequence of the frames stored.
\<close>

definition capture_inv :: "'f capture_state \<Rightarrow> bool" where
  "capture_inv st =
     (maxsize (frame_queue st) = 2 \<and> qsize (frame_queue st) \<le> 2
      \<and> (case producer st of Store f \<Rightarrow> qsize (frame_queue st) \<le> 1 | _ \<Rightarrow> True)
      \<and> suffix (items (frame_queue st)) (stored st)
      \<and> subseq (consumed st @ items (frame_queue st)) (stored st))"

text \<open>
  Three examples. In \<open>race_schedule\<close> the main thread reads a frame between \<open>full()\<close> and
  \<open>get_nowait()\<close> of the third push; in \<open>drained_schedule\<close> it reads both frames there, so
  that \<open>get_nowait()\<close> raises \<open>queue.Empty\<close>. \<open>full_store_state\<close> is a state with a full
  queue before \<open>put_nowait\<close>; no run of the two threads reaches it.
\<close>

definition race_schedule :: "nat thread_event list" where
  "race_schedule =
     [Producer 10, Producer 10, Producer 20, Producer 20, Producer 30, Consumer,
      Producer 30, Producer 30]"

definition drained_schedule :: "nat thread_event list" where
  "drained_schedule =
     [Producer 10, Producer 10, Producer 20, Producer 20, Producer 30, Consumer, Consumer]"

definition full_store_state :: "nat capture_state" where
  "full_store_state =
     \<lparr>frame_queue = \<lparr>maxsize = 2, items = [10, 20]\<rparr>, producer = Store 30,
      stored = [10, 20], consumed = []\<rparr>"

section \<open>Python strings\<close>

text \<open>
  A Python \<open>str\<close> is a sequence of Unicode code points, so a string is a list of code points.
  \<open>ascii\<close> writes an ASCII literal.
\<close>

type_synonym str = "nat list"

definition ascii :: "string \<Rightarrow> str" where
  "ascii s = map of_char s"

text \<open>
  \<open>str.isspace\<close> for one code point, the set that \<open>str.strip()\<close> removes: the characters
  of bidirectional type WS, B or S and of category Zs.
\<close>

definition isspace :: "nat \<Rightarrow> bool" where
  "isspace c =
     (c \<in> {9, 10, 11, 12, 13, 28, 29, 30, 31, 32, 133, 160, 5760, 8232, 8233, 8239, 8287, 12288}
      \<or> (8192 \<le> c \<and> c \<le> 8202))"

definition strip :: "str \<Rightarrow> str" where
  "strip s = rev (dropWhile isspace (rev (dropWhile isspace s)))"

definition startswith :: "str \<Rightarrow> str \<Rightarrow> bool" where
  "startswith s p = (take (length p) s = p)"

definition endswith :: "str \<Rightarrow> str \<Rightarrow> bool" where
  "endswith s p = (length p \<le> length s \<and> drop (length s - length p) s = p)"

text \<open>\<open>s.find(c)\<close> and \<open>s.rfind(c)\<close> for a single character: an index, or \<open>-1\<close>.\<close>

definition str_find :: "str \<Rightarrow> nat \<Rightarrow> int" where
  "str_find s c =
     (if c \<in> set s then int (length (takeWhile (\<lambda>x. x \<noteq> c) s)) else - 1)"

definition str_rfind :: "str \<Rightarrow> nat \<Rightarrow> int" where
  "str_rfind s c =
     (if c \<in> set s
      then int (length s) - 1 - int (length (takeWhile (\<lambda>x. x \<noteq> c) (rev s)))
      else - 1)"

text \<open>
  \<open>s[a:b]\<close>: a negative index counts from the end, every index is clamped to the string,
  and the slice is empty when the start is not before the stop.
\<close>

definition slice_index :: "nat \<Rightarrow> int \<Rightarrow> nat" where
  "slice_index n i = (if i < 0 then nat (max 0 (int n + i)) else min n (nat i))"

definition py_slice :: "str \<Rightarrow> int \<Rightarrow> int \<Rightarrow> str" where
  "py_slice s a b =
     take (slice_index (length s) b - slice_index (length s) a)
       (drop (slice_index (length s) a) s)"

text \<open>\<open>k in s\<close> for strings: \<open>k\<close> occurs in \<open>s\<close> as a contiguous substring.\<close>

fun contains :: "str \<Rightarrow> str \<Rightarrow> bool" where
  "contains [] k = (k = [])"
| "contains (c # s) k = (startswith (c # s) k \<or> contains s k)"

text \<open>\<open>s.replace(a, b)\<close> for single characters.\<close>

definition replace_char :: "nat \<Rightarrow> nat \<Rightarrow> str \<Rightarrow> str" where
  "replace_char a b s = map (\<lambda>c. if c = a then b else c) s"

section \<open>Python values and exceptions\<close>

text \<open>
  An exception is its class and its message. \<open>RequestException\<close> stands for the class of
  the \<open>requests\<close> library and its subclasses (\<open>ConnectionError\<close>, \<open>Timeout\<close>,
  \<open>HTTPError\<close>, ...); all the classes below derive from \<open>Exception\<close>.
\<close>

datatype exc_class =
  JSONDecodeError | TypeError | ValueError | OverflowError | AttributeError
  | RequestException | RuntimeError

datatype py_exception = Raise exc_class str

text \<open>
  A \<open>float\<close> is a finite number or one of the three values that are not (the decoder
  reads \<open>NaN\<close>, \<open>Infinity\<close> and \<open>-Infinity\<close>). A finite float is modelled by the real
  number it denotes; the rounding of binary64 is not modelled. Rounding is monotone and
  leaves \<open>0.0\<close> and \<open>1.0\<close> unchanged, so it commutes with the clamp of \<open>_parse_response\<close>.
\<close>

datatype pyfloat = Finite real | PosInf | NegInf | NaN

text \<open>\<open>a < b\<close> on floats: every comparison with \<open>NaN\<close> is false.\<close>

fun float_lt :: "pyfloat \<Rightarrow> pyfloat \<Rightarrow> bool" where
  "float_lt NaN b = False"
| "float_lt a NaN = False"
| "float_lt (Finite x) (Finite y) = (x < y)"
| "float_lt (Finite x) PosInf = True"
| "float_lt (Finite x) NegInf = False"
| "float_lt PosInf b = False"
| "float_lt NegInf NegInf = False"
| "float_lt NegInf b = True"

text \<open>
  The builtins with two arguments: \<open>min(a, b)\<close> is \<open>a\<close> unless \<open>b < a\<close>, and \<open>max(a, b)\<close>
  is \<open>a\<close> unless \<open>b > a\<close>.
\<close>

definition py_min :: "pyfloat \<Rightarrow> pyfloat \<Rightarrow> pyfloat" where
  "py_min a b = (if float_lt b a then b else a)"

definition py_max :: "pyfloat \<Rightarrow> pyfloat \<Rightarrow> pyfloat" where
  "py_max a b = (if float_lt a b then b else a)"

text \<open>
  The values that \<open>json.loads\<close> returns. An object is its list of members in the order of
  the input; the \<open>dict\<close> built from it keeps the last value of a repeated key.
\<close>

datatype json =
  JNull | JBool bool | JInt int | JFloat pyfloat | JStr str
  | JArr "json list" | JObj "(str \<times> json) list"

text \<open>\<open>d.get(key, dflt)\<close> on the \<open>dict\<close> of an object.\<close>

definition dict_get :: "(str \<times> json) list \<Rightarrow> str \<Rightarrow> json \<Rightarrow> json" where
  "dict_get d key dflt =
     (case map_of (rev d) key of Some v \<Rightarrow> v | None \<Rightarrow> dflt)"

text \<open>\<open>bool(v)\<close>: the truth value of a Python object.\<close>

fun py_bool :: "json \<Rightarrow> bool" where
  "py_bool JNull = False"
| "py_bool (JBool b) = b"
| "py_bool (JInt i) = (i \<noteq> 0)"
| "py_bool (JFloat f) = (f \<noteq> Finite 0)"
| "py_bool (JStr s) = (s \<noteq> [])"
| "py_bool (JArr xs) = (xs \<noteq> [])"
| "py_bool (JObj kvs) = (kvs \<noteq> [])"

text \<open>
  The functions of the interpreter and its library whose tables are not part of the
  repository are parameters of the model:
  \<^item> \<open>str_lower\<close>: \<open>str.lower()\<close>, the Unicode lower-casing;
  \<^item> \<open>json_loads\<close>: \<open>json.loads\<close>, which returns a value or raises;
  \<^item> \<open>repr\<close>: \<open>str(v)\<close> for a value \<open>v\<close> that is not a string;
  \<^item> \<open>float_of_str\<close>: \<open>float(s)\<close> for a string \<open>s\<close>.
\<close>

record pylib =
  str_lower :: "str \<Rightarrow> str"
  json_loads :: "str \<Rightarrow> py_exception + json"
  repr :: "json \<Rightarrow> str"
  float_of_str :: "str \<Rightarrow> py_exception + pyfloat"

text \<open>\<open>str(v)\<close>: a string is returned as it is.\<close>

definition py_str :: "pylib \<Rightarrow> json \<Rightarrow> str" where
  "py_str L v = (case v of JStr s \<Rightarrow> s | _ \<Rightarrow> repr L v)"

text \<open>
  \<open>float(v)\<close>. A \<open>bool\<close> is an \<open>int\<close>; an \<open>int\<close> that rounds to no finite float raises
  \<open>OverflowError\<close>; \<open>None\<close>, a list and a dict raise \<open>TypeError\<close>.
\<close>

definition py_float :: "pylib \<Rightarrow> json \<Rightarrow> py_exception + pyfloat" where
  "py_float L v =
     (case v of
        JFloat f \<Rightarrow> Inr f
      | JInt i \<Rightarrow>
          (if 2 ^ 1024 - 2 ^ 970 \<le> \<bar>i\<bar>
           then Inl (Raise OverflowError (ascii ''int too large to convert to float''))
           else Inr (Finite (of_int i)))
      | JBool b \<Rightarrow> Inr (Finite (if b then 1 else 0))
      | JStr s \<Rightarrow> float_of_str L s
      | _ \<Rightarrow>
          Inl (Raise TypeError (ascii ''float() argument must be a string or a real number'')))"

section \<open>Response normalization: \<open>_parse_response\<close>\<close>

text \<open>
  The result dictionary. \<open>_parse_response\<close> always builds all six keys; the error result
  of \<open>GeminiWorker\<close> has no \<open>alert_type\<close> and no \<open>alert_message\<close> key (\<open>None\<close> below).
\<close>

record analysis_result =
  raw_response :: str
  is_danger :: bool
  alert_type :: "str option"
  alert_message :: "str option"
  reasoning :: str
  confidence :: pyfloat

text \<open>
  The records that the workers hand to their logger, one constructor for each call:
  \<^item> \<open>TaskQueueFull\<close>: the warning of \<open>submit_task\<close>;
  \<^item> \<open>JsonParseFailed\<close>, \<open>ParseFailed\<close>: the warnings of the two handlers of
    \<open>_parse_response\<close>;
  \<^item> \<open>SendingRequest\<close>, \<open>AnalysisDone\<close>: the two info records of a worker's request;
  \<^item> \<open>RequestFailed\<close>: the error record of the handler around the request;
  \<^item> \<open>WorkerError\<close>: the error record of the outer handler of the worker loop.
\<close>

datatype log_record =
  TaskQueueFull
  | JsonParseFailed py_exception
  | ParseFailed py_exception
  | SendingRequest
  | AnalysisDone analysis_result
  | RequestFailed py_exception
  | WorkerError py_exception

text \<open>The marker of a fenced code block, three backquotes.\<close>

definition fence :: str where
  "fence = [96, 96, 96]"

text \<open>
  The four danger_keywords of the fallback: \<open>danger\<close> and three Chinese words (danger,
  abnormal, injured), as code points.
\<close>

definition danger_keywords :: "str list" where
  "danger_keywords = [ascii ''danger'', [21361, 38505], [24322, 24120], [21463, 20260]]"

text \<open>
  The cleaning of the text: \<open>strip()\<close>, the removal of a leading fence (\<open>[7:]\<close> after
  the fence with \<open>json\<close>, \<open>[3:]\<close> after a bare one) and of a trailing fence (\<open>[:-3]\<close>),
  and \<open>strip()\<close> again.
\<close>

definition clean_response :: "str \<Rightarrow> str" where
  "clean_response response_text =
     (let c1 = strip response_text;
          c2 = (if startswith c1 (fence @ ascii ''json'') then drop 7 c1
                else if startswith c1 fence then drop 3 c1
                else c1);
          c3 = (if endswith c2 fence then take (length c2 - 3) c2 else c2)
      in strip c3)"

text \<open>
  The extraction of the fields from the decoded object. The five assignments run in the
  order of the source, so an exception of \<open>float(...)\<close> leaves the four assignments
  before it in the dictionary; the left summand carries the dictionary as it is when the
  exception is raised.
\<close>

definition extract_fields ::
  "pylib \<Rightarrow> (str \<times> json) list \<Rightarrow> analysis_result
    \<Rightarrow> (py_exception \<times> analysis_result) + analysis_result" where
  "extract_fields L d result =
     (let r1 = result\<lparr>is_danger := py_bool (dict_get d (ascii ''is_danger'') (JBool False))\<rparr>;
          r2 = r1\<lparr>alert_type := Some (py_str L (dict_get d (ascii ''alert_type'') (JStr [])))\<rparr>;
          r3 = r2\<lparr>alert_message :=
                  Some (py_str L (dict_get d (ascii ''alert_message'') (JStr [])))\<rparr>;
          r4 = r3\<lparr>reasoning := py_str L (dict_get d (ascii ''reasoning'') (JStr []))\<rparr>
      in case py_float L (dict_get d (ascii ''confidence'') (JFloat (Finite (1 / 2)))) of
           Inl e \<Rightarrow> Inl (e, r4)
         | Inr c \<Rightarrow>
             (let r5 = r4\<lparr>confidence := c\<rparr>
              in Inr (r5\<lparr>confidence := py_max (Finite 0) (py_min (Finite 1) (confidence r5))\<rparr>)))"

text \<open>The branch without JSON: the raw text as reasoning, and the keyword scan.\<close>

definition keyword_fallback :: "pylib \<Rightarrow> str \<Rightarrow> analysis_result \<Rightarrow> analysis_result" where
  "keyword_fallback L response_text result =
     (let r1 = result\<lparr>reasoning := response_text\<rparr>
      in if list_ex (\<lambda>keyword. contains (str_lower L response_text) keyword) danger_keywords
         then r1\<lparr>is_danger := True\<rparr>
         else r1)"

text \<open>
  The body of the \<open>try\<close> statement. \<open>json_data.get\<close> on a value that is no \<open>dict\<close> raises
  \<open>AttributeError\<close>.
\<close>

definition parse_try ::
  "pylib \<Rightarrow> str \<Rightarrow> analysis_result \<Rightarrow> (py_exception \<times> analysis_result) + analysis_result" where
  "parse_try L response_text result =
     (let response_clean = clean_response response_text;
          json_start = str_find response_clean 123;
          json_end = str_rfind response_clean 125 + 1
      in if json_start \<noteq> - 1 \<and> json_end > 0
         then (let json_str = py_slice response_clean json_start json_end
               in case json_loads L json_str of
                    Inl e \<Rightarrow> Inl (e, result)
                  | Inr json_data \<Rightarrow>
                      (case json_data of
                         JObj d \<Rightarrow> extract_fields L d result
                       | _ \<Rightarrow>
                           Inl (Raise AttributeError (ascii ''object has no attribute get''),
                                result)))
         else Inr (keyword_fallback L response_text result))"

text \<open>
  \<open>NetworkWorker._parse_response\<close> and \<open>GeminiWorker._parse_response\<close>: the two methods
  have the same body. The first handler catches \<open>json.JSONDecodeError\<close>, the second every
  other \<open>Exception\<close>; each logs a warning and stores the raw text as reasoning. The
  function returns the dictionary and the records it logged.
\<close>

definition parse_response :: "pylib \<Rightarrow> str \<Rightarrow> analysis_result \<times> log_record list" where
  "parse_response L response_text =
     (let result = \<lparr>raw_response = response_text, is_danger = False, alert_type = Some [],
                     alert_message = Some [], reasoning = [], confidence = Finite (1 / 2)\<rparr>
      in case parse_try L response_text result of
           Inr r \<Rightarrow> (r, [])
         | Inl (Raise c msg, r) \<Rightarrow>
             (if c = JSONDecodeError
              then (r\<lparr>reasoning := response_text\<rparr>, [JsonParseFailed (Raise c msg)])
              else (r\<lparr>reasoning := response_text\<rparr>, [ParseFailed (Raise c msg)])))"

text \<open>
  Names for the statements about \<open>_parse_response\<close>: the condition
  \<open>json_start != -1 and json_end > 0\<close> of the source, the substring \<open>json_str\<close> that is
  decoded, the dictionary before the \<open>try\<close>, the class of an exception, the warning that
  the handlers log for it, and the range of a confidence.
\<close>

definition json_bounds_found :: "str \<Rightarrow> bool" where
  "json_bounds_found t =
     (str_find (clean_response t) 123 \<noteq> - 1 \<and> 0 < str_rfind (clean_response t) 125 + 1)"

definition json_substring :: "str \<Rightarrow> str" where
  "json_substring t =
     py_slice (clean_response t) (str_find (clean_response t) 123)
       (str_rfind (clean_response t) 125 + 1)"

definition default_result :: "str \<Rightarrow> analysis_result" where
  "default_result t =
     \<lparr>raw_response = t, is_danger = False, alert_type = Some [], alert_message = Some [],
      reasoning = [], confidence = Finite (1 / 2)\<rparr>"

fun exception_class :: "py_exception \<Rightarrow> exc_class" where
  "exception_class (Raise c msg) = c"

definition handler_log :: "py_exception \<Rightarrow> log_record" where
  "handler_log e =
     (if exception_class e = JSONDecodeError then JsonParseFailed e else ParseFailed e)"

definition in_unit_interval :: "pyfloat \<Rightarrow> bool" where
  "in_unit_interval f = (case f of Finite x \<Rightarrow> 0 \<le> x \<and> x \<le> 1 | _ \<Rightarrow> False)"

section \<open>A library for the examples\<close>

text \<open>
  The examples need a decoder and a lower-casing to run. \<open>json_decode\<close> follows the
  grammar that \<open>json.loads\<close> of CPython accepts in its default (strict) mode: the JSON
  grammar and the three literals \<open>NaN\<close>, \<open>Infinity\<close> and \<open>-Infinity\<close>. It reads the text
  in two passes, a lexer and a parser with an explicit stack, each a structural recursion
  over its input. The limits of an interpreter (the recursion depth, the length of an
  integer literal) are not modelled; they raise exceptions that \<open>_parse_response\<close>
  handles like any other.
\<close>

definition is_digit :: "nat \<Rightarrow> bool" where
  "is_digit c = (48 \<le> c \<and> c \<le> 57)"

definition nat_of_digits :: "str \<Rightarrow> nat" where
  "nat_of_digits ds = foldl (\<lambda>a c. 10 * a + (c - 48)) 0 ds"

text \<open>
  A number: \<open>-?(0|[1-9][0-9]*)(.[0-9]+)?([eE][-+]?[0-9]+)?\<close>. Without a fraction and an
  exponent it is an \<open>int\<close>, otherwise a \<open>float\<close>.
\<close>

definition json_number :: "str \<Rightarrow> json option" where
  "json_number s =
     (let neg = (s \<noteq> [] \<and> hd s = 45);
          s0 = (if neg then tl s else s);
          ip = takeWhile is_digit s0;
          s1 = dropWhile is_digit s0;
          has_frac = (s1 \<noteq> [] \<and> hd s1 = 46);
          fp = (if has_frac then takeWhile is_digit (tl s1) else []);
          s2 = (if has_frac then dropWhile is_digit (tl s1) else s1);
          has_exp = (s2 \<noteq> [] \<and> (hd s2 = 101 \<or> hd s2 = 69));
          s3 = (if has_exp then tl s2 else s2);
          has_sign = (has_exp \<and> s3 \<noteq> [] \<and> (hd s3 = 45 \<or> hd s3 = 43));
          eneg = (has_sign \<and> hd s3 = 45);
          s4 = (if has_sign then tl s3 else s3);
          ep = (if has_exp then takeWhile is_digit s4 else []);
          s5 = (if has_exp then dropWhile is_digit s4 else s4);
          mantissa = real (nat_of_digits (ip @ fp)) / 10 ^ length fp;
          scaled = (if eneg then mantissa / 10 ^ nat_of_digits ep
                    else mantissa * 10 ^ nat_of_digits ep)
      in if ip = [] \<or> (1 < length ip \<and> hd ip = 48) \<or> (has_frac \<and> fp = [])
            \<or> (has_exp \<and> ep = []) \<or> s5 \<noteq> []
         then None
         else if has_frac \<or> has_exp
         then Some (JFloat (Finite (if neg then - scaled else scaled)))
         else Some (JInt (if neg then - int (nat_of_digits ip) else int (nat_of_digits ip))))"

text \<open>
  A maximal run of letters, digits, signs and dots is one atom: a literal or a number.
  No such character may follow a value, so reading the longest run decides as the
  scanner of the library does.
\<close>

definition atom_char :: "nat \<Rightarrow> bool" where
  "atom_char c =
     (is_digit c \<or> (65 \<le> c \<and> c \<le> 90) \<or> (97 \<le> c \<and> c \<le> 122)
      \<or> c = 43 \<or> c = 45 \<or> c = 46)"

definition json_atom :: "str \<Rightarrow> json option" where
  "json_atom a =
     (if a = ascii ''true'' then Some (JBool True)
      else if a = ascii ''false'' then Some (JBool False)
      else if a = ascii ''null'' then Some JNull
      else if a = ascii ''NaN'' then Some (JFloat NaN)
      else if a = ascii ''Infinity'' then Some (JFloat PosInf)
      else if a = ascii ''-Infinity'' then Some (JFloat NegInf)
      else json_number a)"

text \<open>The character after a backslash, and a hexadecimal digit of \<open>\uXXXX\<close>.\<close>

definition escape_char :: "nat \<Rightarrow> nat option" where
  "escape_char c =
     (if c = 34 \<or> c = 92 \<or> c = 47 then Some c
      else if c = 98 then Some 8
      else if c = 102 then Some 12
      else if c = 110 then Some 10
      else if c = 114 then Some 13
      else if c = 116 then Some 9
      else None)"

definition hex_val :: "nat \<Rightarrow> nat option" where
  "hex_val c =
     (if 48 \<le> c \<and> c \<le> 57 then Some (c - 48)
      else if 97 \<le> c \<and> c \<le> 102 then Some (c - 87)
      else if 65 \<le> c \<and> c \<le> 70 then Some (c - 55)
      else None)"

text \<open>
  The characters of a string literal are collected with a mark on those written as
  \<open>\uXXXX\<close>: a high surrogate and a low surrogate that are both written so, one after
  the other, are one code point.
\<close>

fun join_surrogates :: "(nat \<times> bool) list \<Rightarrow> str" where
  "join_surrogates ((h, True) # (l, True) # r) =
     (if 55296 \<le> h \<and> h \<le> 56319 \<and> 56320 \<le> l \<and> l \<le> 57343
      then (65536 + (h - 55296) * 1024 + (l - 56320)) # join_surrogates r
      else h # join_surrogates ((l, True) # r))"
| "join_surrogates ((c, b) # r) = c # join_surrogates r"
| "join_surrogates [] = []"

datatype token = TLBrace | TRBrace | TLBrack | TRBrack | TColon | TComma | TValue json

datatype lex_mode =
  LStart
  | LAtom str
  | LString "(nat \<times> bool) list"
  | LEscape "(nat \<times> bool) list"
  | LUnicode "(nat \<times> bool) list" "nat list"

text \<open>A character between two tokens: white space, punctuation, or the start of a token.\<close>

definition start_char :: "nat \<Rightarrow> (token list \<times> lex_mode) option" where
  "start_char c =
     (if c = 32 \<or> c = 9 \<or> c = 10 \<or> c = 13 then Some ([], LStart)
      else if c = 123 then Some ([TLBrace], LStart)
      else if c = 125 then Some ([TRBrace], LStart)
      else if c = 91 then Some ([TLBrack], LStart)
      else if c = 93 then Some ([TRBrack], LStart)
      else if c = 58 then Some ([TColon], LStart)
      else if c = 44 then Some ([TComma], LStart)
      else if c = 34 then Some ([], LString [])
      else if atom_char c then Some ([], LAtom [c])
      else None)"

fun lex :: "lex_mode \<Rightarrow> str \<Rightarrow> token list option" where
  "lex LStart [] = Some []"
| "lex (LAtom a) [] = map_option (\<lambda>v. [TValue v]) (json_atom a)"
| "lex (LString acc) [] = None"
| "lex (LEscape acc) [] = None"
| "lex (LUnicode acc ds) [] = None"
| "lex LStart (c # cs) =
     (case start_char c of
        None \<Rightarrow> None
      | Some (ts, m) \<Rightarrow> map_option (\<lambda>r. ts @ r) (lex m cs))"
| "lex (LAtom a) (c # cs) =
     (if atom_char c then lex (LAtom (a @ [c])) cs
      else (case json_atom a of
              None \<Rightarrow> None
            | Some v \<Rightarrow>
                (case start_char c of
                   None \<Rightarrow> None
                 | Some (ts, m) \<Rightarrow> map_option (\<lambda>r. TValue v # ts @ r) (lex m cs))))"
| "lex (LString acc) (c # cs) =
     (if c = 34 then map_option (\<lambda>r. TValue (JStr (join_surrogates acc)) # r) (lex LStart cs)
      else if c = 92 then lex (LEscape acc) cs
      else if c < 32 then None
      else lex (LString (acc @ [(c, False)])) cs)"
| "lex (LEscape acc) (c # cs) =
     (if c = 117 then lex (LUnicode acc []) cs
      else (case escape_char c of
              None \<Rightarrow> None
            | Some e \<Rightarrow> lex (LString (acc @ [(e, False)])) cs))"
| "lex (LUnicode acc ds) (c # cs) =
     (case hex_val c of
        None \<Rightarrow> None
      | Some d \<Rightarrow>
          (if length ds = 3
           then lex (LString (acc @ [(foldl (\<lambda>a x. 16 * a + x) 0 (ds @ [d]), True)])) cs
           else lex (LUnicode acc (ds @ [d])) cs))"

text \<open>
  The parser keeps the open containers on a stack: an array with its elements so far, an
  object with its members so far and the key that waits for its value (both reversed).
\<close>

datatype container = InArr "json list" | InObj "(str \<times> json) list" str

datatype parse_state =
  PValue "container list"
  | PArrStart "container list"
  | PObjStart "container list"
  | PKey "(str \<times> json) list" "container list"
  | PColon "(str \<times> json) list" str "container list"
  | PAfterArr "json list" "container list"
  | PAfterObj "(str \<times> json) list" "container list"
  | PDone json

fun deliver :: "json \<Rightarrow> container list \<Rightarrow> parse_state" where
  "deliver v [] = PDone v"
| "deliver v (InArr es # stack) = PAfterArr (v # es) stack"
| "deliver v (InObj ms k # stack) = PAfterObj ((k, v) # ms) stack"

fun value_token :: "container list \<Rightarrow> token \<Rightarrow> parse_state option" where
  "value_token stack (TValue v) = Some (deliver v stack)"
| "value_token stack TLBrack = Some (PArrStart stack)"
| "value_token stack TLBrace = Some (PObjStart stack)"
| "value_token stack t = None"

fun parse_step :: "parse_state \<Rightarrow> token \<Rightarrow> parse_state option" where
  "parse_step (PValue stack) t = value_token stack t"
| "parse_step (PArrStart stack) TRBrack = Some (deliver (JArr []) stack)"
| "parse_step (PArrStart stack) t = value_token (InArr [] # stack) t"
| "parse_step (PObjStart stack) TRBrace = Some (deliver (JObj []) stack)"
| "parse_step (PObjStart stack) (TValue (JStr k)) = Some (PColon [] k stack)"
| "parse_step (PKey ms stack) (TValue (JStr k)) = Some (PColon ms k stack)"
| "parse_step (PColon ms k stack) TColon = Some (PValue (InObj ms k # stack))"
| "parse_step (PAfterArr es stack) TComma = Some (PValue (InArr es # stack))"
| "parse_step (PAfterArr es stack) TRBrack = Some (deliver (JArr (rev es)) stack)"
| "parse_step (PAfterObj ms stack) TComma = Some (PKey ms stack)"
| "parse_step (PAfterObj ms stack) TRBrace = Some (deliver (JObj (rev ms)) stack)"
| "parse_step st t = None"

fun parse_tokens :: "parse_state \<Rightarrow> token list \<Rightarrow> parse_state option" where
  "parse_tokens st [] = Some st"
| "parse_tokens st (t # ts) =
     (case parse_step st t of None \<Rightarrow> None | Some st' \<Rightarrow> parse_tokens st' ts)"

definition json_decode :: "str \<Rightarrow> py_exception + json" where
  "json_decode s =
     (case lex LStart s of
        None \<Rightarrow> Inl (Raise JSONDecodeError (ascii ''Invalid JSON text''))
      | Some ts \<Rightarrow>
          (case parse_tokens (PValue []) ts of
             Some (PDone v) \<Rightarrow> Inr v
           | _ \<Rightarrow> Inl (Raise JSONDecodeError (ascii ''Invalid JSON text''))))"

text \<open>Lower-casing of the ASCII letters; it is \<open>str.lower()\<close> on ASCII text.\<close>

definition ascii_lower :: "str \<Rightarrow> str" where
  "ascii_lower s = map (\<lambda>c. if 65 \<le> c \<and> c \<le> 90 then c + 32 else c) s"

text \<open>
  The library of the examples. Its two last functions are reached by no example (no
  example converts a number or a container to a string, or a string to a float) and are
  left unspecified, so that a statement about \<open>example_lib\<close> holds whatever they are.
\<close>

definition example_lib :: pylib where
  "example_lib =
     \<lparr>str_lower = ascii_lower, json_loads = json_decode,
      repr = undefined, float_of_str = undefined\<rparr>"

text \<open>
  The texts of the examples: the well-formed object of the specification with a confidence
  of 1.5, an object whose confidence is \<open>null\<close>, a text without JSON that holds a
  keyword in capitals, and a text between braces that is no JSON. \<open>quoted\<close> writes a
  string literal of JSON.
\<close>

definition quoted :: "string \<Rightarrow> str" where
  "quoted s = 34 # ascii s @ [34]"

definition example_clamped :: str where
  "example_clamped =
     ascii ''{'' @ quoted ''is_danger'' @ ascii '':true,'' @ quoted ''confidence''
       @ ascii '':1.5,'' @ quoted ''reasoning'' @ ascii '':'' @ quoted ''x'' @ ascii ''}''"

definition example_null_confidence :: str where
  "example_null_confidence =
     ascii ''{'' @ quoted ''is_danger'' @ ascii '': true, '' @ quoted ''confidence''
       @ ascii '': null}''"

definition example_keyword :: str where
  "example_keyword = ascii ''no json here but DANGER detected''"

definition example_undecodable :: str where
  "example_undecodable = ascii ''{danger}''"

section \<open>The analysis dispatcher: \<open>NetworkWorker\<close> and \<open>GeminiWorker\<close>\<close>

text \<open>
  A task is the dictionary that \<open>submit_task\<close> enqueues, with its keys \<open>frame\<close>,
  \<open>query\<close> and \<open>timestamp\<close>. The state of a worker is the
  same for the two classes: the two queues, the \<open>running\<close> flag, whether a callback is
  registered, and, as the trace of its effects, the results passed to the callback and
  the records logged.
\<close>

record 'f task =
  task_frame :: 'f
  task_query :: str
  task_timestamp :: real

record 'f worker =
  task_queue :: "'f task py_queue"
  result_queue :: "analysis_result py_queue"
  running :: bool
  callback :: bool
  callback_calls :: "analysis_result list"
  logged :: "log_record list"

text \<open>
  \<open>__init__\<close> of both classes: \<open>queue.Queue()\<close> without a \<open>maxsize\<close> is \<open>Queue(0)\<close>, an
  unbounded queue.
\<close>

definition worker_init :: "'f worker" where
  "worker_init =
     \<lparr>task_queue = Queue 0, result_queue = Queue 0, running = False, callback = False,
      callback_calls = [], logged = []\<rparr>"

definition start :: "'f worker \<Rightarrow> bool \<Rightarrow> 'f worker" where
  "start w cb = w\<lparr>callback := cb, running := True\<rparr>"

definition stop :: "'f worker \<Rightarrow> 'f worker" where
  "stop w = w\<lparr>running := False\<rparr>"

text \<open>
  \<open>submit_task\<close> of both classes; \<open>time_now\<close> is the value of \<open>time.time()\<close>:
  \<^verbatim>\<open>
  try:
      self.task_queue.put_nowait({'frame': frame.copy(), 'query': query,
                                  'timestamp': time.time()})
  except queue.Full:
      self.logger.warning(...)
  \<close>
\<close>

definition submit_task :: "'f worker \<Rightarrow> 'f \<Rightarrow> str \<Rightarrow> real \<Rightarrow> 'f worker" where
  "submit_task w frame query time_now =
     (case put_nowait (task_queue w)
             \<lparr>task_frame = frame, task_query = query, task_timestamp = time_now\<rparr> of
        Inr q \<Rightarrow> w\<lparr>task_queue := q\<rparr>
      | Inl e \<Rightarrow> w\<lparr>logged := logged w @ [TaskQueueFull]\<rparr>)"

text \<open>Submitting a list of tasks, one call after the other.\<close>

fun submit_tasks :: "'f worker \<Rightarrow> ('f \<times> str \<times> real) list \<Rightarrow> 'f worker" where
  "submit_tasks w [] = w"
| "submit_tasks w ((frame, query, time_now) # rest) =
     submit_tasks (submit_task w frame query time_now) rest"

text \<open>The task that a call of \<open>submit_task\<close> builds from its arguments and the clock.\<close>

definition new_task :: "'f \<times> str \<times> real \<Rightarrow> 'f task" where
  "new_task a =
     (case a of (frame, query, time_now) \<Rightarrow>
        \<lparr>task_frame = frame, task_query = query, task_timestamp = time_now\<rparr>)"

text \<open>\<open>get_result\<close> of both classes: the oldest result, or \<open>None\<close>.\<close>

definition get_result :: "'f worker \<Rightarrow> analysis_result option \<times> 'f worker" where
  "get_result w =
     (case get_nowait (result_queue w) of
        Inr (r, q) \<Rightarrow> (Some r, w\<lparr>result_queue := q\<rparr>)
      | Inl e \<Rightarrow> (None, w))"

text \<open>
  The blocking \<open>Queue.put\<close>, as the worker thread sees it: on a full queue the call waits
  for a free slot, and the thread makes no step (\<open>None\<close>).
\<close>

definition put :: "'a py_queue \<Rightarrow> 'a \<Rightarrow> 'a py_queue option" where
  "put q x = (if full q then None else Some (q\<lparr>items := items q @ [x]\<rparr>))"

text \<open>
  The two statements that publish a result: \<open>self.result_queue.put(r)\<close>, and
  \<open>self.callback(r)\<close> if a callback is registered. The callback of the program,
  \<open>SmartMonitor._on_analysis_result\<close>, is one assignment and does not raise.
\<close>

definition publish :: "'f worker \<Rightarrow> analysis_result \<Rightarrow> 'f worker option" where
  "publish w r =
     (case put (result_queue w) r of
        None \<Rightarrow> None
      | Some q \<Rightarrow>
          Some (w\<lparr>result_queue := q,
                  callback_calls := (if callback w then callback_calls w @ [r]
                                     else callback_calls w)\<rparr>))"

text \<open>
  What the environment does in one iteration of \<open>NetworkWorker._worker_loop\<close> that found
  a task: \<open>_compress_image\<close> raises; or a statement of the inner \<open>try\<close> (the request,
  \<open>raise_for_status\<close>, \<open>response.json()\<close>) raises; or the server answers, with the text of
  the \<open>response\<close> field.
\<close>

datatype network_outcome =
  CompressRaised py_exception
  | RequestRaised py_exception
  | Response str

text \<open>
  One iteration of \<open>NetworkWorker._worker_loop\<close>. With an empty task queue,
  \<open>get(timeout=1.0)\<close> raises \<open>queue.Empty\<close> and the loop continues. The inner handler
  catches \<open>requests.exceptions.RequestException\<close> and logs it; the outer handler catches
  every other \<open>Exception\<close> and logs it.
\<close>

definition network_iteration ::
  "pylib \<Rightarrow> 'f worker \<Rightarrow> network_outcome \<Rightarrow> 'f worker option" where
  "network_iteration L w outcome =
     (case get_nowait (task_queue w) of
        Inl e \<Rightarrow> Some w
      | Inr (task, q) \<Rightarrow>
          (let w1 = w\<lparr>task_queue := q\<rparr>
           in case outcome of
                CompressRaised e \<Rightarrow> Some (w1\<lparr>logged := logged w1 @ [WorkerError e]\<rparr>)
              | RequestRaised e \<Rightarrow>
                  (case e of Raise c msg \<Rightarrow>
                     if c = RequestException
                     then Some (w1\<lparr>logged := logged w1 @ [SendingRequest, RequestFailed e]\<rparr>)
                     else Some (w1\<lparr>logged := logged w1 @ [SendingRequest, WorkerError e]\<rparr>))
              | Response response_text \<Rightarrow>
                  (let (parsed_result, warnings) = parse_response L response_text;
                       w2 = w1\<lparr>logged := logged w1 @ [SendingRequest] @ warnings\<rparr>
                   in case publish w2 parsed_result of
                        None \<Rightarrow> None
                      | Some w3 \<Rightarrow>
                          Some (w3\<lparr>logged := logged w3 @ [AnalysisDone parsed_result]\<rparr>))))"

text \<open>\<open>str(e)\<close> of an exception: its message.\<close>

fun exc_str :: "py_exception \<Rightarrow> str" where
  "exc_str (Raise c msg) = msg"

text \<open>
  The error result of \<open>GeminiWorker\<close>; the two prefixes are the literals of the source
  (\<open>API\<close>, a space, four Chinese characters, a colon and a space).
\<close>

definition error_result :: "py_exception \<Rightarrow> analysis_result" where
  "error_result e =
     \<lparr>raw_response = [65, 80, 73, 32, 35843, 29992, 22833, 36133, 58, 32] @ exc_str e,
      is_danger = False, alert_type = None, alert_message = None,
      reasoning = [65, 80, 73, 32, 35843, 29992, 20986, 38169, 58, 32] @ exc_str e,
      confidence = Finite 0\<rparr>"

text \<open>
  One iteration of \<open>GeminiWorker._worker_loop\<close>. The outcome is the exception raised by
  a statement of the inner \<open>try\<close> (\<open>_frame_to_pil_image\<close>, \<open>generate_content\<close>,
  \<open>response.text\<close>), or the text of the response. The inner handler catches every
  \<open>Exception\<close> and publishes the error result.
\<close>

definition gemini_iteration ::
  "pylib \<Rightarrow> 'f worker \<Rightarrow> py_exception + str \<Rightarrow> 'f worker option" where
  "gemini_iteration L w outcome =
     (case get_nowait (task_queue w) of
        Inl e \<Rightarrow> Some w
      | Inr (task, q) \<Rightarrow>
          (let w1 = w\<lparr>task_queue := q\<rparr>
           in case outcome of
                Inl e \<Rightarrow>
                  publish (w1\<lparr>logged := logged w1 @ [SendingRequest, RequestFailed e]\<rparr>)
                    (error_result e)
              | Inr response_text \<Rightarrow>
                  (let (parsed_result, warnings) = parse_response L response_text;
                       w2 = w1\<lparr>logged := logged w1 @ [SendingRequest] @ warnings\<rparr>
                   in case publish w2 parsed_result of
                        None \<Rightarrow> None
                      | Some w3 \<Rightarrow>
                          Some (w3\<lparr>logged := logged w3 @ [AnalysisDone parsed_result]\<rparr>))))"

text \<open>
  The loops \<open>while self.running: ...\<close>, run against the outcomes of the successive
  iterations.
\<close>

fun network_loop :: "pylib \<Rightarrow> 'f worker \<Rightarrow> network_outcome list \<Rightarrow> 'f worker option" where
  "network_loop L w [] = Some w"
| "network_loop L w (outcome # rest) =
     (if running w
      then (case network_iteration L w outcome of
              None \<Rightarrow> None
            | Some w' \<Rightarrow> network_loop L w' rest)
      else Some w)"

fun gemini_loop :: "pylib \<Rightarrow> 'f worker \<Rightarrow> (py_exception + str) list \<Rightarrow> 'f worker option" where
  "gemini_loop L w [] = Some w"
| "gemini_loop L w (outcome # rest) =
     (if running w
      then (case gemini_iteration L w outcome of
              None \<Rightarrow> None
            | Some w' \<Rightarrow> gemini_loop L w' rest)
      else Some w)"

section \<open>The monitor: \<open>SmartMonitor\<close>\<close>

text \<open>
  The state of the monitor that its main loop reads and writes, with the traces of its
  two effects: the records handed to \<open>AlertNotifier.send_alert\<close> and the calls of
  \<open>cv2.imwrite\<close>. \<open>alert_notifier\<close> tells whether the notifier is set. The frame counter
  and the frame rate, which only feed the overlay, and the calls of the monitor's logger
  are left out.
\<close>

datatype status = Initializing | Monitoring | Analyzing | AnalysisComplete | DangerAlert | Safe

record alert_data =
  rule_name :: str
  description :: str
  severity :: str
  location :: str
  alert_timestamp :: str

record 'f image_write =
  path :: str
  image :: 'f

record 'f monitor =
  network_worker :: "'f worker"
  alert_notifier :: bool
  last_upload_time :: real
  last_alert_time :: real
  cooldown_seconds :: real
  alert_cooldown_seconds :: real
  current_status :: status
  alert_count :: nat
  analysis_count :: nat
  person_detection_count :: nat
  save_alert_images :: bool
  alert_display_start_time :: "real option"
  alert_display_duration :: real
  last_alert_result :: "analysis_result option"
  sent_alerts :: "alert_data list"
  image_writes :: "'f image_write list"

text \<open>
  The state after \<open>__init__\<close> and \<open>initialize\<close>: the worker is started with the callback,
  the notifier is set; \<open>cooldown\<close> is the configured \<open>cooldown_seconds\<close> (5.0 by default).
\<close>

definition monitor_init :: "real \<Rightarrow> 'f monitor" where
  "monitor_init cooldown =
     \<lparr>network_worker = start worker_init True, alert_notifier = True,
      last_upload_time = 0, last_alert_time = 0, cooldown_seconds = cooldown,
      alert_cooldown_seconds = 2, current_status = Monitoring, alert_count = 0,
      analysis_count = 0, person_detection_count = 0, save_alert_images = True,
      alert_display_start_time = None, alert_display_duration = 5,
      last_alert_result = None, sent_alerts = [], image_writes = []\<rparr>"

text \<open>\<open>str(n)\<close> for a natural number: its decimal digits.\<close>

function decimal :: "nat \<Rightarrow> str" where
  "decimal n = (if n < 10 then [48 + n] else decimal (n div 10) @ [48 + n mod 10])"
  by pat_completeness auto
termination
  by (relation "measure id") auto

declare decimal.simps [simp del]

text \<open>
  \<open>_save_alert_image\<close>; \<open>stamp\<close> is the value of \<open>time.strftime("%Y%m%d_%H%M%S")\<close>. The
  file name is \<open>alert_{timestamp}_{alert_count}{cooldown_tag}_{reasoning_short}.jpg\<close> in
  the directory \<open>alerts\<close>. The handler of the method logs a failure of the write, which
  changes nothing else.
\<close>

definition alert_filename :: "nat \<Rightarrow> bool \<Rightarrow> str \<Rightarrow> analysis_result \<Rightarrow> str" where
  "alert_filename n is_cooldown stamp result =
     (let reasoning_short = replace_char 47 95 (replace_char 32 95 (take 20 (reasoning result)));
          cooldown_tag = (if is_cooldown then ascii ''_cooldown'' else [])
      in ascii ''alert_'' @ stamp @ ascii ''_'' @ decimal n @ cooldown_tag @ ascii ''_''
           @ reasoning_short @ ascii ''.jpg'')"

definition save_alert_image ::
  "'f monitor \<Rightarrow> 'f \<Rightarrow> analysis_result \<Rightarrow> bool \<Rightarrow> str \<Rightarrow> 'f monitor" where
  "save_alert_image m frame result is_cooldown stamp =
     (let filename = alert_filename (alert_count m) is_cooldown stamp result;
          filepath = ascii ''alerts/'' @ filename
      in m\<lparr>image_writes := image_writes m @ [\<lparr>path = filepath, image = frame\<rparr>]\<rparr>)"

text \<open>
  \<open>_trigger_alert\<close>. \<open>current_time\<close> is the value of \<open>time.time()\<close> that the method reads,
  \<open>alert_stamp\<close> the value of \<open>time.strftime("%Y-%m-%d %H:%M:%S")\<close> and \<open>image_stamp\<close> the
  one of \<open>_save_alert_image\<close>. The literals of the alert record are those of the source,
  as code points.
\<close>

definition trigger_alert ::
  "'f monitor \<Rightarrow> analysis_result \<Rightarrow> 'f option \<Rightarrow> real \<Rightarrow> str \<Rightarrow> str \<Rightarrow> 'f monitor" where
  "trigger_alert m result frame current_time alert_stamp image_stamp =
     (if current_time - last_alert_time m < alert_cooldown_seconds m
      then (case frame of
              Some f \<Rightarrow>
                (if save_alert_images m then save_alert_image m f result True image_stamp
                 else m)
            | None \<Rightarrow> m)
      else (let m1 = m\<lparr>last_alert_time := current_time\<rparr>;
                m2 = m1\<lparr>alert_count := alert_count m1 + 1\<rparr>;
                alert = \<lparr>rule_name = [21361, 38505, 21160, 20316, 26816, 27979],
                          description =
                            [26816, 27979, 21040, 21361, 38505, 24773, 20917, 58, 32]
                              @ reasoning result,
                          severity = [39640],
                          location = [30417, 25511, 25668, 20687, 22836],
                          alert_timestamp = alert_stamp\<rparr>;
                m3 = (if alert_notifier m2 then m2\<lparr>sent_alerts := sent_alerts m2 @ [alert]\<rparr>
                      else m2)
            in case frame of
                 Some f \<Rightarrow>
                   (if save_alert_images m3 then save_alert_image m3 f result False image_stamp
                    else m3)
               | None \<Rightarrow> m3))"

text \<open>
  The prompt of the request, the f-string of \<open>run\<close> with \<open>AlertType.PERSON_DETECTED\<close>
  filled in, as code points.
\<close>

definition prompt :: str where
  "prompt =
     [
      20320, 26159, 19968, 20010, 19987, 19994, 30340, 23433, 38450, 30417, 25511, 31995,
      32479, 20998, 26512, 19987, 23478, 12290, 30417, 27979, 31995, 32479, 26816, 27979,
      21040, 30011, 38754, 20013, 21487, 33021, 21457, 29983, 32, 80, 69, 82, 83, 79, 78, 95,
      68, 69, 84, 69, 67, 84, 69, 68, 12290, 10, 10, 35831, 20180, 32454, 20998, 26512, 30011,
      38754, 20013, 30340, 20154, 29289, 23039, 24577, 21644, 34892, 20026, 65292, 21028,
      26029, 26159, 21542, 23384, 22312, 30495, 27491, 30340, 21361, 38505, 24773, 20917,
      12290, 10, 10, 21028, 26029, 26631, 20934, 65306, 10, 45, 32, 83, 65, 70, 69, 65288,
      23433, 20840, 65289, 30340, 24773, 20917, 65306, 10, 32, 32, 42, 32, 20154, 29289, 22312,
      20570, 29788, 20285, 12289, 25289, 20280, 31561, 36816, 21160, 10, 32, 32, 42, 32, 20154,
      29289, 22312, 30561, 35273, 25110, 20241, 24687, 10, 32, 32, 42, 32, 20154, 29289, 20027,
      21160, 36538, 19979, 25110, 22352, 19979, 10, 32, 32, 42, 32, 20154, 29289, 27491, 24120,
      27963, 21160, 65292, 26080, 26126, 26174, 24322, 24120, 10, 10, 45, 32, 68, 65, 78, 71,
      69, 82, 65288, 21361, 38505, 65289, 30340, 24773, 20917, 65306, 10, 32, 32, 42, 32,
      20154, 29289, 34920, 29616, 20986, 22833, 21435, 24179, 34913, 12289, 31361, 28982,
      20498, 22320, 10, 32, 32, 42, 32, 20154, 29289, 34920, 29616, 20986, 30171, 33510, 12289,
      26080, 27861, 21160, 24377, 10, 32, 32, 42, 32, 20154, 29289, 22788, 20110, 24322, 24120,
      23039, 24577, 65292, 30097, 20284, 21463, 20260, 10, 32, 32, 42, 32, 20154, 29289, 34892,
      20026, 24322, 24120, 65292, 21487, 33021, 23384, 22312, 21361, 38505, 10, 10, 35831,
      20197, 20005, 26684, 30340, 32, 74, 83, 79, 78, 32, 26684, 24335, 36820, 22238, 20998,
      26512, 32467, 26524, 65306, 10, 123, 10, 32, 32, 32, 32, 34, 105, 115, 95, 100, 97, 110,
      103, 101, 114, 34, 58, 32, 116, 114, 117, 101, 47, 102, 97, 108, 115, 101, 44, 10, 32,
      32, 32, 32, 34, 114, 101, 97, 115, 111, 110, 105, 110, 103, 34, 58, 32, 34, 35814, 32454,
      30340, 20998, 26512, 35828, 26126, 65292, 35299, 37322, 20026, 20160, 20040, 21028,
      23450, 20026, 23433, 20840, 25110, 21361, 38505, 34, 44, 10, 32, 32, 32, 32, 34, 99, 111,
      110, 102, 105, 100, 101, 110, 99, 101, 34, 58, 32, 48, 46, 48, 45, 49, 46, 48, 20043,
      38388, 30340, 28014, 28857, 25968, 65292, 34920, 31034, 21028, 26029, 30340, 32622,
      20449, 24230, 10, 125, 10, 10, 21482, 36820, 22238, 32, 74, 83, 79, 78, 65292, 19981,
      35201, 21253, 21547, 20854, 20182, 25991, 23383, 12290]"

text \<open>
  Examples: a worker whose task queue is bounded by 2 and full (the queue of \<open>__init__\<close>
  is unbounded; the field can be replaced), a started worker with one task, and a
  transport failure.
\<close>

definition bounded_worker :: "nat worker" where
  "bounded_worker =
     worker_init\<lparr>task_queue :=
       \<lparr>maxsize = 2, items = [new_task (10, prompt, 100), new_task (20, prompt, 101)]\<rparr>\<rparr>"

definition one_task_worker :: "nat worker" where
  "one_task_worker = submit_task (start worker_init True) 10 prompt 100"

definition connection_refused :: py_exception where
  "connection_refused = Raise RequestException (ascii ''connection refused'')"

text \<open>
  The readings of the clock in one iteration: \<open>now\<close> is \<open>current_time\<close> of step 4,
  \<open>submit_now\<close> the time stamp of the task, \<open>alert_now\<close> the reading of \<open>_trigger_alert\<close>;
  \<open>loop_stamp\<close>, \<open>trigger_stamp\<close> and \<open>record_stamp\<close> are the values of \<open>time.strftime\<close>
  in the save of the main loop, in the save of \<open>_trigger_alert\<close> and in its alert record.
\<close>

record clock =
  now :: real
  submit_now :: real
  alert_now :: real
  loop_stamp :: str
  trigger_stamp :: str
  record_stamp :: str

text \<open>
  Step 4 of the main loop, the upload gate. \<open>frame\<close> is the frame after
  \<open>draw_detections\<close>.
\<close>

definition upload_step :: "'f monitor \<Rightarrow> 'f \<Rightarrow> bool \<Rightarrow> clock \<Rightarrow> 'f monitor" where
  "upload_step m frame has_person clk =
     (let current_time = now clk;
          time_since_last_upload = current_time - last_upload_time m
      in if has_person \<and> time_since_last_upload \<ge> cooldown_seconds m
         then m\<lparr>network_worker := submit_task (network_worker m) frame prompt (submit_now clk),
                current_status := Analyzing,
                last_upload_time := current_time\<rparr>
         else m)"

text \<open>
  Step 5 of the main loop: the poll of the worker and the handling of a result. A result
  dictionary is never empty, so \<open>if result:\<close> tests that a result was returned.
\<close>

definition result_step :: "'f monitor \<Rightarrow> 'f \<Rightarrow> clock \<Rightarrow> 'f monitor" where
  "result_step m frame clk =
     (case get_result (network_worker m) of
        (None, w) \<Rightarrow> m\<lparr>network_worker := w\<rparr>
      | (Some result, w) \<Rightarrow>
          (let m1 = m\<lparr>network_worker := w, analysis_count := analysis_count m + 1,
                       current_status := AnalysisComplete\<rparr>
           in if is_danger result
              then (let m2 = m1\<lparr>alert_display_start_time := Some (now clk),
                                 last_alert_result := Some result\<rparr>;
                        m3 = (if save_alert_images m2
                              then save_alert_image m2 frame result False (loop_stamp clk)
                              else m2);
                        m4 = trigger_alert m3 result (Some frame) (alert_now clk)
                               (record_stamp clk) (trigger_stamp clk)
                    in m4\<lparr>current_status := DangerAlert\<rparr>)
              else m1\<lparr>current_status := Safe\<rparr>))"

text \<open>Step 5.5 of the main loop: the alert stays on display for the display duration.\<close>

definition display_step :: "'f monitor \<Rightarrow> clock \<Rightarrow> 'f monitor" where
  "display_step m clk =
     (case alert_display_start_time m of
        None \<Rightarrow> m
      | Some t0 \<Rightarrow>
          (if now clk - t0 < alert_display_duration m then m
           else m\<lparr>alert_display_start_time := None, last_alert_result := None\<rparr>))"

text \<open>
  One iteration of the loop of \<open>run\<close> for a frame that was read: the count of the
  detections with a person, the frame with the detections drawn (\<open>drawn\<close>, used if a
  person was detected), and steps 4, 5 and 5.5.
\<close>

definition run_iteration :: "'f monitor \<Rightarrow> 'f \<Rightarrow> 'f \<Rightarrow> bool \<Rightarrow> clock \<Rightarrow> 'f monitor" where
  "run_iteration m frame drawn has_person clk =
     (let m1 = (if has_person then m\<lparr>person_detection_count := person_detection_count m + 1\<rparr>
                else m);
          frame1 = (if has_person then drawn else frame);
          m2 = upload_step m1 frame1 has_person clk;
          m3 = result_step m2 frame1 clk
      in display_step m3 clk)"

text \<open>
  The dictionary that \<open>_trigger_alert\<close> hands to \<open>send_alert\<close> for a result, and the call
  of \<open>cv2.imwrite\<close> that \<open>_save_alert_image\<close> makes for the alert count \<open>n\<close>.
\<close>

definition alert_record :: "analysis_result \<Rightarrow> str \<Rightarrow> alert_data" where
  "alert_record result stamp =
     \<lparr>rule_name = [21361, 38505, 21160, 20316, 26816, 27979],
      description = [26816, 27979, 21040, 21361, 38505, 24773, 20917, 58, 32] @ reasoning result,
      severity = [39640],
      location = [30417, 25511, 25668, 20687, 22836],
      alert_timestamp = stamp\<rparr>"

definition evidence :: "nat \<Rightarrow> bool \<Rightarrow> str \<Rightarrow> analysis_result \<Rightarrow> 'f \<Rightarrow> 'f image_write" where
  "evidence n is_cooldown stamp result frame =
     \<lparr>path = ascii ''alerts/'' @ alert_filename n is_cooldown stamp result, image = frame\<rparr>"

text \<open>
  Examples: a danger result, three calls of \<open>_trigger_alert\<close> on the initial state at
  the times 0, 1 and 3, and three calls at times one and three seconds apart on
  14 November 2023.
\<close>

definition fall_result :: analysis_result where
  "fall_result =
     \<lparr>raw_response = ascii ''{\"is_danger\": true, \"reasoning\": \"person fell/on floor\"}'',
      is_danger = True, alert_type = Some [], alert_message = Some [],
      reasoning = ascii ''person fell/on floor'', confidence = Finite (1 / 2)\<rparr>"





text \<open>
  Examples: the clock of an iteration that runs within one second, and the monitor with
  the danger result waiting in the result queue and a given time of the last alert.
\<close>

definition clock_at :: "real \<Rightarrow> clock" where
  "clock_at t =
     \<lparr>now = t, submit_now = t, alert_now = t, loop_stamp = ascii ''20231114_221320'',
      trigger_stamp = ascii ''20231114_221320'', record_stamp = ascii ''2023-11-14 22:13:20''\<rparr>"

definition fall_reported :: "real \<Rightarrow> nat monitor" where
  "fall_reported last_alert =
     (monitor_init 5)
       \<lparr>network_worker := (start worker_init True)
          \<lparr>result_queue := \<lparr>maxsize = 0, items = [fall_result]\<rparr>\<rparr>,
        last_alert_time := last_alert\<rparr>"

section \<open>Properties of the capture queue\<close>

lemma suffix_tl_left: "suffix xs ys \<Longrightarrow> suffix (tl xs) ys"
  by (metis suffix_order.trans suffix_tl)

lemma subseq_drop_head: "subseq (cs @ x # xs) ys \<Longrightarrow> subseq (cs @ xs) ys"
proof -
  assume a: "subseq (cs @ x # xs) ys"
  have "subseq (cs @ xs) (cs @ x # xs)"
    by (simp add: subseq_append' list_emb_Cons)
  from this a show ?thesis by (rule subseq_order.trans)
qed

lemma subseq_snoc: "subseq (cs @ xs) ys \<Longrightarrow> subseq (cs @ xs @ [f]) (ys @ [f])"
  using list_emb_append_mono [of "(=)" "cs @ xs" ys "[f]" "[f]"] by simp

lemma capture_init_inv: "capture_inv capture_init"
  by (simp add: capture_inv_def capture_init_def frame_queue_init_def Queue_def qsize_def)

lemma producer_step_inv: "capture_inv st \<Longrightarrow> capture_inv (producer_step st frame)"
proof (cases "producer st")
  case Idle
  assume "capture_inv st"
  with Idle show ?thesis
    by (auto simp: capture_inv_def producer_step_def full_def qsize_def)
next
  case (Evict f)
  assume "capture_inv st"
  with Evict show ?thesis
    by (cases "items (frame_queue st)")
       (auto simp: capture_inv_def producer_step_def get_nowait_def qsize_def
             dest: suffix_tl_left subseq_drop_head suffix_ConsD)
next
  case (Store f)
  assume "capture_inv st"
  with Store show ?thesis
    by (auto simp: capture_inv_def producer_step_def put_nowait_def full_def qsize_def
             intro: subseq_snoc)
qed

lemma consumer_step_inv: "capture_inv st \<Longrightarrow> capture_inv (consumer_step st)"
  by (cases "items (frame_queue st)")
     (auto simp: capture_inv_def consumer_step_def read_frame_def get_nowait_def qsize_def
           split: producer.splits dest: suffix_ConsD)

lemma thread_run_inv: "capture_inv st \<Longrightarrow> capture_inv (thread_run st evs)"
  unfolding thread_run_def
proof (induction evs arbitrary: st)
  case Nil
  then show ?case by simp
next
  case (Cons ev evs)
  have "capture_inv (thread_step st ev)"
    using Cons.prems by (cases ev) (simp_all add: producer_step_inv consumer_step_inv)
  then show ?case using Cons.IH by simp
qed

lemma drain_items: "drain q = items q"
proof (induction "items q" arbitrary: q)
  case Nil
  then show ?case by (subst drain.simps) (simp add: read_frame_def get_nowait_def)
next
  case (Cons x xs)
  from Cons(2) [symmetric] have "read_frame q = ((True, Some x), q\<lparr>items := xs\<rparr>)"
    by (simp add: read_frame_def get_nowait_def)
  moreover have "drain (q\<lparr>items := xs\<rparr>) = xs"
    using Cons(1) [of "q\<lparr>items := xs\<rparr>"] by simp
  ultimately show ?case using Cons(2) by (subst drain.simps) simp
qed

lemma producer_step_evict:
  "producer st = Evict f \<Longrightarrow>
   producer_step st g =
     st\<lparr>frame_queue := (frame_queue st)\<lparr>items := tl (items (frame_queue st))\<rparr>,
        producer := Store f\<rparr>"
  by (cases "items (frame_queue st)") (simp_all add: producer_step_def get_nowait_def)

lemma producer_step_store:
  "producer st = Store f \<Longrightarrow>
   producer_step st g =
     (if full (frame_queue st) then st\<lparr>producer := Idle\<rparr>
      else st\<lparr>frame_queue := (frame_queue st)\<lparr>items := items (frame_queue st) @ [f]\<rparr>,
              producer := Idle, stored := stored st @ [f]\<rparr>)"
  by (simp add: producer_step_def put_nowait_def)

lemma capture_inv_store_not_full:
  "capture_inv st \<Longrightarrow> producer st = Store f \<Longrightarrow> \<not> full (frame_queue st)"
  by (simp add: capture_inv_def full_def)

lemma push_uninterrupted_queue:
  "producer st = Idle \<Longrightarrow>
   frame_queue (push_uninterrupted st frame) = capture_push (frame_queue st) frame
   \<and> producer (push_uninterrupted st frame) = Idle"
  by (cases "items (frame_queue st)")
     (auto simp: push_uninterrupted_def producer_step_def capture_push_def Let_def
        get_nowait_def put_nowait_def)

lemma capture_push_items:
  "maxsize q = 2 \<Longrightarrow> qsize q \<le> 2 \<Longrightarrow>
   items (capture_push q frame) = (if full q then tl (items q) else items q) @ [frame]"
  by (cases "items q")
     (auto simp: capture_push_def full_def qsize_def get_nowait_def put_nowait_def Let_def)

lemma push_uninterrupted_inv:
  "capture_inv st \<Longrightarrow> capture_inv (push_uninterrupted st frame)"
  by (auto simp: push_uninterrupted_def Let_def producer_step_inv split: producer.splits)

lemma stream_state:
  "capture_inv (foldl push_uninterrupted capture_init fs)
   \<and> producer (foldl push_uninterrupted capture_init fs) = Idle
   \<and> items (frame_queue (foldl push_uninterrupted capture_init fs)) = drop (length fs - 2) fs"
proof (induction fs rule: rev_induct)
  case Nil
  show ?case
    by (simp add: capture_init_inv) (simp add: capture_init_def frame_queue_init_def Queue_def)
next
  case (snoc f fs)
  let ?st = "foldl push_uninterrupted capture_init fs"
  let ?q = "frame_queue ?st"
  from snoc have inv: "capture_inv ?st" and idle: "producer ?st = Idle"
    and its: "items ?q = drop (length fs - 2) fs" by simp_all
  from inv have mq: "maxsize ?q = 2" "qsize ?q \<le> 2" by (simp_all add: capture_inv_def)
  have len: "qsize ?q = min 2 (length fs)" using its by (simp add: qsize_def)
  have full_iff: "full ?q \<longleftrightarrow> 2 \<le> length fs"
    using mq len by (auto simp: full_def)
  have "items (frame_queue (push_uninterrupted ?st f))
          = (if full ?q then tl (items ?q) else items ?q) @ [f]"
    using push_uninterrupted_queue [OF idle, of f] capture_push_items [OF mq, of f] by simp
  also have "\<dots> = drop (length (fs @ [f]) - 2) (fs @ [f])"
  proof (cases "2 \<le> length fs")
    case True
    then have "Suc (length fs - 2) = length fs - 1" by simp
    then have "tl (drop (length fs - 2) fs) = drop (length fs - 1) fs"
      by (metis drop_Suc tl_drop)
    with True full_iff its show ?thesis by simp
  next
    case False
    with full_iff its show ?thesis by simp
  qed
  finally have "items (frame_queue (push_uninterrupted ?st f))
                  = drop (length (fs @ [f]) - 2) (fs @ [f])" .
  then show ?case
    using push_uninterrupted_inv [OF inv, of f] push_uninterrupted_queue [OF idle, of f]
    by simp
qed


text \<open>
  Claim C6. In every run of the two threads from the empty capture queue of \<open>__init__\<close>,
  whatever the interleaving of their queue calls: the queue holds at most 2 frames;
  draining it yields its content, which is a run of the frames stored last, in the order
  of their capture; the frames read so far followed by the frames in the queue are a
  subsequence of the frames stored, so the consumer sees frames in the order of their
  capture. A push never blocks and never skips its frame: after \<open>full()\<close> returned true,
  \<open>get_nowait()\<close> removes the oldest frame in the queue (none if the consumer has emptied
  it), and \<open>put_nowait\<close> then finds room and stores the frame; were the queue full at
  \<open>put_nowait\<close>, the thread would drop the frame and go on. A push that no read interrupts
  replaces the oldest frame of a full queue, and after a stream of such pushes draining
  the queue yields the last two frames of the stream, oldest first.
\<close>

theorem capture_queue_bounded_drop_oldest:
  assumes "st = thread_run capture_init evs"
  shows "qsize (frame_queue st) \<le> 2
   \<and> drain (frame_queue st) = items (frame_queue st)
   \<and> suffix (drain (frame_queue st)) (stored st)
   \<and> subseq (consumed st @ drain (frame_queue st)) (stored st)
   \<and> (producer st = Evict f \<longrightarrow>
        producer_step st g =
          st\<lparr>frame_queue := (frame_queue st)\<lparr>items := tl (items (frame_queue st))\<rparr>,
             producer := Store f\<rparr>)
   \<and> (producer st = Store f \<longrightarrow>
        \<not> full (frame_queue st)
        \<and> producer_step st g =
            st\<lparr>frame_queue := (frame_queue st)\<lparr>items := items (frame_queue st) @ [f]\<rparr>,
               producer := Idle, stored := stored st @ [f]\<rparr>)
   \<and> (producer st = Idle \<longrightarrow>
        items (frame_queue (push_uninterrupted st g))
          = (if full (frame_queue st) then tl (items (frame_queue st))
             else items (frame_queue st)) @ [g])
   \<and> (producer s = Store f \<and> full (frame_queue s) \<longrightarrow> producer_step s g = s\<lparr>producer := Idle\<rparr>)
   \<and> drain (frame_queue (foldl push_uninterrupted capture_init fs)) = drop (length fs - 2) fs"
proof -
  have inv: "capture_inv st"
    unfolding assms by (rule thread_run_inv [OF capture_init_inv])
  then have mq: "maxsize (frame_queue st) = 2" "qsize (frame_queue st) \<le> 2"
    and suf: "suffix (items (frame_queue st)) (stored st)"
    and sub: "subseq (consumed st @ items (frame_queue st)) (stored st)"
    by (simp_all add: capture_inv_def)
  have store: "producer st = Store f \<longrightarrow>
        \<not> full (frame_queue st)
        \<and> producer_step st g =
            st\<lparr>frame_queue := (frame_queue st)\<lparr>items := items (frame_queue st) @ [f]\<rparr>,
               producer := Idle, stored := stored st @ [f]\<rparr>"
    using capture_inv_store_not_full [OF inv, of f] by (simp add: producer_step_store)
  have idle: "producer st = Idle \<longrightarrow>
        items (frame_queue (push_uninterrupted st g))
          = (if full (frame_queue st) then tl (items (frame_queue st))
             else items (frame_queue st)) @ [g]"
    using push_uninterrupted_queue [of st g] capture_push_items [OF mq, of g] by simp
  have skip: "producer s = Store f \<and> full (frame_queue s) \<longrightarrow>
                producer_step s g = s\<lparr>producer := Idle\<rparr>"
    by (simp add: producer_step_store)
  show ?thesis
    using mq(2) suf sub store idle skip stream_state [of fs]
    by (simp add: drain_items producer_step_evict)
qed

lemmas capture_eval = thread_run_def capture_init_def frame_queue_init_def Queue_def
  producer_step_def consumer_step_def read_frame_def get_nowait_def put_nowait_def full_def
  qsize_def

lemma race_run:
  "thread_run capture_init race_schedule =
     \<lparr>frame_queue = \<lparr>maxsize = 2, items = [30]\<rparr>, producer = Idle,
      stored = [10, 20, 30], consumed = [10]\<rparr>"
  by (simp add: race_schedule_def capture_eval)

lemma drained_run:
  "thread_run capture_init drained_schedule =
     \<lparr>frame_queue = \<lparr>maxsize = 2, items = []\<rparr>, producer = Evict 30,
      stored = [10, 20], consumed = [10, 20]\<rparr>"
  by (simp add: drained_schedule_def capture_eval)

lemma drained_run_next:
  "thread_run capture_init (drained_schedule @ [Producer 40]) =
     \<lparr>frame_queue = \<lparr>maxsize = 2, items = []\<rparr>, producer = Store 30,
      stored = [10, 20], consumed = [10, 20]\<rparr>"
  by (simp add: drained_schedule_def capture_eval)

lemma two_pushes_run:
  "thread_run capture_init (take 4 race_schedule) =
     \<lparr>frame_queue = \<lparr>maxsize = 2, items = [10, 20]\<rparr>, producer = Idle,
      stored = [10, 20], consumed = []\<rparr>"
  by (simp add: race_schedule_def capture_eval)

theorem capture_queue_bounded_drop_oldest_witness:
  "thread_run capture_init race_schedule =
     \<lparr>frame_queue = \<lparr>maxsize = 2, items = [30]\<rparr>, producer = Idle,
      stored = [10, 20, 30], consumed = [10]\<rparr>
   \<and> drain (frame_queue (thread_run capture_init race_schedule)) = [30]
   \<and> producer (thread_run capture_init drained_schedule) = Evict 30
   \<and> producer_step (thread_run capture_init drained_schedule) 40 =
       \<lparr>frame_queue = \<lparr>maxsize = 2, items = []\<rparr>, producer = Store 30,
        stored = [10, 20], consumed = [10, 20]\<rparr>
   \<and> producer (thread_run capture_init (drained_schedule @ [Producer 40])) = Store 30
   \<and> producer_step (thread_run capture_init (drained_schedule @ [Producer 40])) 40 =
       \<lparr>frame_queue = \<lparr>maxsize = 2, items = [30]\<rparr>, producer = Idle,
        stored = [10, 20, 30], consumed = [10, 20]\<rparr>
   \<and> producer (thread_run capture_init (take 4 race_schedule)) = Idle
   \<and> full (frame_queue (thread_run capture_init (take 4 race_schedule)))
   \<and> items (frame_queue (push_uninterrupted (thread_run capture_init (take 4 race_schedule)) 30))
       = [20, 30]
   \<and> producer full_store_state = Store 30
   \<and> full (frame_queue full_store_state)
   \<and> producer_step full_store_state 40 = full_store_state\<lparr>producer := Idle\<rparr>
   \<and> drain (frame_queue (foldl push_uninterrupted capture_init [10 :: nat, 20, 30, 40, 50]))
       = [40, 50]"
proof -
  note t1 = capture_queue_bounded_drop_oldest
              [OF refl, of race_schedule 30 40 full_store_state "[10 :: nat, 20, 30, 40, 50]"]
  note t2 = capture_queue_bounded_drop_oldest
              [OF refl, of drained_schedule 30 40 full_store_state "[] :: nat list"]
  note t3 = capture_queue_bounded_drop_oldest
              [OF refl, of "drained_schedule @ [Producer 40]" 30 40 full_store_state
                 "[] :: nat list"]
  note t4 = capture_queue_bounded_drop_oldest
              [OF refl, of "take 4 race_schedule" 30 30 full_store_state "[] :: nat list"]
  have a: "drain (frame_queue (thread_run capture_init race_schedule)) = [30]"
    using t1 unfolding race_run by simp
  have b: "producer_step (thread_run capture_init drained_schedule) 40 =
       \<lparr>frame_queue = \<lparr>maxsize = 2, items = []\<rparr>, producer = Store 30,
        stored = [10, 20], consumed = [10, 20]\<rparr>"
    using t2 unfolding drained_run by simp
  have c: "producer_step (thread_run capture_init (drained_schedule @ [Producer 40])) 40 =
       \<lparr>frame_queue = \<lparr>maxsize = 2, items = [30]\<rparr>, producer = Idle,
        stored = [10, 20, 30], consumed = [10, 20]\<rparr>"
    using t3 unfolding drained_run_next by simp
  have d: "full (frame_queue (thread_run capture_init (take 4 race_schedule)))"
    unfolding two_pushes_run by (simp add: full_def qsize_def)
  have e: "items (frame_queue (push_uninterrupted
             (thread_run capture_init (take 4 race_schedule)) 30)) = [20, 30]"
    using t4 d unfolding two_pushes_run by simp
  have f: "full (frame_queue full_store_state)"
    by (simp add: full_store_state_def full_def qsize_def)
  have g: "producer_step full_store_state 40 = full_store_state\<lparr>producer := Idle\<rparr>"
    using t1 f by (simp add: full_store_state_def)
  have h: "drain (frame_queue (foldl push_uninterrupted capture_init
             [10 :: nat, 20, 30, 40, 50])) = [40, 50]"
    using t1 by simp
  show ?thesis
    using a b c d e f g h
    by (simp add: race_run drained_run drained_run_next two_pushes_run)
       (simp add: full_store_state_def)
qed

section \<open>Properties of the response normalization\<close>

lemma length_takeWhile_less:
  "x \<in> set xs \<Longrightarrow> \<not> P x \<Longrightarrow> length (takeWhile P xs) < length xs"
  by (induction xs) auto

lemma str_find_found: "str_find s c \<noteq> - 1 \<longleftrightarrow> c \<in> set s"
  by (simp add: str_find_def)

lemma str_rfind_found: "0 < str_rfind s c + 1 \<longleftrightarrow> c \<in> set s"
proof (cases "c \<in> set s")
  case True
  then have "length (takeWhile (\<lambda>x. x \<noteq> c) (rev s)) < length (rev s)"
    by (intro length_takeWhile_less [of c]) simp_all
  then show ?thesis using True by (simp add: str_rfind_def)
next
  case False
  then show ?thesis by (simp add: str_rfind_def)
qed

lemma json_bounds_found_iff:
  "json_bounds_found t \<longleftrightarrow> 123 \<in> set (clean_response t) \<and> 125 \<in> set (clean_response t)"
  unfolding json_bounds_found_def str_find_found str_rfind_found by simp

lemma parse_try_no_json:
  "\<not> json_bounds_found t \<Longrightarrow> parse_try L t r = Inr (keyword_fallback L t r)"
  by (auto simp: parse_try_def json_bounds_found_def Let_def)

lemma parse_try_json:
  "json_bounds_found t \<Longrightarrow>
   parse_try L t r =
     (case json_loads L (json_substring t) of
        Inl e \<Rightarrow> Inl (e, r)
      | Inr json_data \<Rightarrow>
          (case json_data of
             JObj d \<Rightarrow> extract_fields L d r
           | _ \<Rightarrow> Inl (Raise AttributeError (ascii ''object has no attribute get''), r)))"
  by (auto simp: parse_try_def json_bounds_found_def json_substring_def Let_def)

lemma parse_response_no_json:
  "\<not> json_bounds_found t \<Longrightarrow>
   parse_response L t = (keyword_fallback L t (default_result t), [])"
  by (simp add: parse_response_def parse_try_no_json default_result_def)

lemma parse_response_decode_error:
  "json_bounds_found t \<Longrightarrow> json_loads L (json_substring t) = Inl e \<Longrightarrow>
   fst (parse_response L t) = (default_result t)\<lparr>reasoning := t\<rparr>"
  by (cases e) (simp add: parse_response_def parse_try_json default_result_def Let_def)

lemma keyword_fallback_fields:
  "keyword_fallback L t (default_result t) =
     \<lparr>raw_response = t,
      is_danger = list_ex (\<lambda>keyword. contains (str_lower L t) keyword) danger_keywords,
      alert_type = Some [], alert_message = Some [], reasoning = t,
      confidence = Finite (1 / 2)\<rparr>"
  by (simp add: keyword_fallback_def default_result_def Let_def)

lemma clamp_in_unit_interval: "in_unit_interval (py_max (Finite 0) (py_min (Finite 1) c))"
  by (cases c) (auto simp: in_unit_interval_def py_max_def py_min_def)

lemma extract_fields_ok:
  "py_float L (dict_get d (ascii ''confidence'') (JFloat (Finite (1 / 2)))) = Inr c \<Longrightarrow>
   extract_fields L d (default_result t) =
     Inr \<lparr>raw_response = t,
          is_danger = py_bool (dict_get d (ascii ''is_danger'') (JBool False)),
          alert_type = Some (py_str L (dict_get d (ascii ''alert_type'') (JStr []))),
          alert_message = Some (py_str L (dict_get d (ascii ''alert_message'') (JStr []))),
          reasoning = py_str L (dict_get d (ascii ''reasoning'') (JStr [])),
          confidence = py_max (Finite 0) (py_min (Finite 1) c)\<rparr>"
  by (simp add: extract_fields_def default_result_def Let_def)

lemma extract_fields_error:
  "py_float L (dict_get d (ascii ''confidence'') (JFloat (Finite (1 / 2)))) = Inl e \<Longrightarrow>
   extract_fields L d (default_result t) =
     Inl (e, \<lparr>raw_response = t,
          is_danger = py_bool (dict_get d (ascii ''is_danger'') (JBool False)),
          alert_type = Some (py_str L (dict_get d (ascii ''alert_type'') (JStr []))),
          alert_message = Some (py_str L (dict_get d (ascii ''alert_message'') (JStr []))),
          reasoning = py_str L (dict_get d (ascii ''reasoning'') (JStr [])),
          confidence = Finite (1 / 2)\<rparr>)"
  by (simp add: extract_fields_def default_result_def Let_def)

lemma parse_response_try:
  "parse_response L t =
     (case parse_try L t (default_result t) of
        Inr r \<Rightarrow> (r, [])
      | Inl (e, r) \<Rightarrow>
          (r\<lparr>reasoning := t\<rparr>,
           [if (case e of Raise c msg \<Rightarrow> c = JSONDecodeError) then JsonParseFailed e
            else ParseFailed e]))"
  by (auto simp: parse_response_def default_result_def Let_def
           split: sum.splits prod.splits py_exception.splits)

lemma parse_response_object_ok:
  assumes "json_bounds_found t"
    and "json_loads L (json_substring t) = Inr (JObj d)"
    and "py_float L (dict_get d (ascii ''confidence'') (JFloat (Finite (1 / 2)))) = Inr c"
  shows "parse_response L t =
     (\<lparr>raw_response = t,
       is_danger = py_bool (dict_get d (ascii ''is_danger'') (JBool False)),
       alert_type = Some (py_str L (dict_get d (ascii ''alert_type'') (JStr []))),
       alert_message = Some (py_str L (dict_get d (ascii ''alert_message'') (JStr []))),
       reasoning = py_str L (dict_get d (ascii ''reasoning'') (JStr [])),
       confidence = py_max (Finite 0) (py_min (Finite 1) c)\<rparr>, [])"
  using assms by (simp add: parse_response_try parse_try_json extract_fields_ok)

lemma parse_response_object_error:
  assumes "json_bounds_found t"
    and "json_loads L (json_substring t) = Inr (JObj d)"
    and "py_float L (dict_get d (ascii ''confidence'') (JFloat (Finite (1 / 2)))) = Inl e"
  shows "fst (parse_response L t) =
     \<lparr>raw_response = t,
      is_danger = py_bool (dict_get d (ascii ''is_danger'') (JBool False)),
      alert_type = Some (py_str L (dict_get d (ascii ''alert_type'') (JStr []))),
      alert_message = Some (py_str L (dict_get d (ascii ''alert_message'') (JStr []))),
      reasoning = t,
      confidence = Finite (1 / 2)\<rparr>"
  using assms by (simp add: parse_response_try parse_try_json extract_fields_error)

lemma parse_try_cases:
  "parse_try L t r =
     (if \<not> json_bounds_found t then Inr (keyword_fallback L t r)
      else (case json_loads L (json_substring t) of
              Inl e \<Rightarrow> Inl (e, r)
            | Inr json_data \<Rightarrow>
                (case json_data of
                   JObj d \<Rightarrow> extract_fields L d r
                 | _ \<Rightarrow> Inl (Raise AttributeError (ascii ''object has no attribute get''), r))))"
  by (simp add: parse_try_no_json parse_try_json)

lemma extract_fields_frame:
  "extract_fields L d r = Inr r' \<Longrightarrow>
     raw_response r' = raw_response r \<and> in_unit_interval (confidence r')"
  "extract_fields L d r = Inl (e, r') \<Longrightarrow>
     raw_response r' = raw_response r \<and> confidence r' = confidence r"
  by (auto simp: extract_fields_def Let_def clamp_in_unit_interval split: sum.splits)

lemma keyword_fallback_frame:
  "raw_response (keyword_fallback L t r) = raw_response r
   \<and> confidence (keyword_fallback L t r) = confidence r"
  by (simp add: keyword_fallback_def Let_def)

lemma parse_try_frame:
  "parse_try L t r = Inr r' \<Longrightarrow> in_unit_interval (confidence r) \<Longrightarrow>
     raw_response r' = raw_response r \<and> in_unit_interval (confidence r')"
  "parse_try L t r = Inl (e, r') \<Longrightarrow> in_unit_interval (confidence r) \<Longrightarrow>
     raw_response r' = raw_response r \<and> in_unit_interval (confidence r')"
proof -
  assume a: "parse_try L t r = Inr r'" and c: "in_unit_interval (confidence r)"
  show "raw_response r' = raw_response r \<and> in_unit_interval (confidence r')"
  proof (cases "json_bounds_found t")
    case False
    with a have "r' = keyword_fallback L t r" by (simp add: parse_try_cases)
    with c show ?thesis by (simp add: keyword_fallback_frame)
  next
    case True
    with a obtain d where "extract_fields L d r = Inr r'"
      by (auto simp: parse_try_cases split: sum.splits json.splits)
    then show ?thesis by (simp add: extract_fields_frame)
  qed
next
  assume a: "parse_try L t r = Inl (e, r')" and c: "in_unit_interval (confidence r)"
  show "raw_response r' = raw_response r \<and> in_unit_interval (confidence r')"
  proof (cases "json_bounds_found t")
    case False
    with a show ?thesis by (simp add: parse_try_cases)
  next
    case True
    with a have "r' = r \<or> (\<exists>d. extract_fields L d r = Inl (e, r'))"
      by (auto simp: parse_try_cases split: sum.splits json.splits)
    with c show ?thesis by (auto simp: extract_fields_frame)
  qed
qed

lemma default_result_frame:
  "raw_response (default_result t) = t \<and> in_unit_interval (confidence (default_result t))"
  by (simp add: default_result_def in_unit_interval_def)

lemma parse_response_confidence:
  "in_unit_interval (confidence (fst (parse_response L t)))"
proof (cases "parse_try L t (default_result t)")
  case (Inl p)
  obtain e r' where p: "p = (e, r')" by (cases p)
  with Inl parse_try_frame(2) [of L t "default_result t" e r'] default_result_frame [of t]
  show ?thesis by (simp add: parse_response_try)
next
  case (Inr r')
  with parse_try_frame(1) [of L t "default_result t" r'] default_result_frame [of t]
  show ?thesis by (simp add: parse_response_try)
qed

lemma parse_response_raw:
  "raw_response (fst (parse_response L t)) = t"
proof (cases "parse_try L t (default_result t)")
  case (Inl p)
  obtain e r' where p: "p = (e, r')" by (cases p)
  with Inl parse_try_frame(2) [of L t "default_result t" e r'] default_result_frame [of t]
  show ?thesis by (simp add: parse_response_try)
next
  case (Inr r')
  with parse_try_frame(1) [of L t "default_result t" r'] default_result_frame [of t]
  show ?thesis by (simp add: parse_response_try)
qed

lemma dict_get_missing: "key \<notin> fst ` set d \<Longrightarrow> dict_get d key dflt = dflt"
  by (simp add: dict_get_def map_of_eq_None_iff [THEN iffD2])

lemmas str_eval = strip_def isspace_def startswith_def endswith_def fence_def str_find_def
  str_rfind_def py_slice_def slice_index_def clean_response_def json_bounds_found_def
  json_substring_def ascii_def quoted_def

lemmas decode_eval = json_decode_def start_char_def atom_char_def is_digit_def
  json_atom_def json_number_def nat_of_digits_def Let_def

lemma example_clamped_bounds:
  "json_bounds_found example_clamped \<and> json_substring example_clamped = example_clamped"
  by (simp add: example_clamped_def str_eval)

lemma example_clamped_decode:
  "json_decode example_clamped =
     Inr (JObj [(ascii ''is_danger'', JBool True),
                (ascii ''confidence'', JFloat (Finite (3 / 2))),
                (ascii ''reasoning'', JStr (ascii ''x''))])"
  by (simp add: example_clamped_def ascii_def quoted_def decode_eval)

lemma example_null_bounds:
  "json_bounds_found example_null_confidence
   \<and> json_substring example_null_confidence = example_null_confidence"
  by (simp add: example_null_confidence_def str_eval)

lemma example_null_decode:
  "json_decode example_null_confidence =
     Inr (JObj [(ascii ''is_danger'', JBool True), (ascii ''confidence'', JNull)])"
  by (simp add: example_null_confidence_def ascii_def quoted_def decode_eval)

lemma example_keyword_bounds: "\<not> json_bounds_found example_keyword"
  by (simp add: example_keyword_def str_eval)

lemma example_keyword_scan:
  "list_ex (\<lambda>keyword. contains (ascii_lower example_keyword) keyword) danger_keywords"
  by (simp add: example_keyword_def danger_keywords_def ascii_lower_def ascii_def
      startswith_def)

lemma example_undecodable_bounds:
  "json_bounds_found example_undecodable
   \<and> json_substring example_undecodable = example_undecodable"
  by (simp add: example_undecodable_def str_eval)

lemma example_undecodable_decode:
  "json_decode example_undecodable = Inl (Raise JSONDecodeError (ascii ''Invalid JSON text''))"
  by (simp add: example_undecodable_def ascii_def decode_eval)

lemma example_undecodable_scan:
  "list_ex (\<lambda>keyword. contains (ascii_lower example_undecodable) keyword) danger_keywords"
  by (simp add: example_undecodable_def danger_keywords_def ascii_lower_def ascii_def
      startswith_def)

lemma parse_response_try_log:
  "parse_response L t =
     (case parse_try L t (default_result t) of
        Inr r \<Rightarrow> (r, [])
      | Inl (e, r) \<Rightarrow> (r\<lparr>reasoning := t\<rparr>, [handler_log e]))"
  by (auto simp: parse_response_def default_result_def Let_def handler_log_def
           split: sum.splits prod.splits py_exception.splits)

lemma default_reasoning:
  "(default_result t)\<lparr>reasoning := t\<rparr> =
     \<lparr>raw_response = t, is_danger = False, alert_type = Some [], alert_message = Some [],
      reasoning = t, confidence = Finite (1 / 2)\<rparr>"
  by (simp add: default_result_def)

lemma parse_response_total_aux:
  "parse_response L t =
     (if \<not> json_bounds_found t
      then (\<lparr>raw_response = t,
             is_danger = list_ex (\<lambda>keyword. contains (str_lower L t) keyword) danger_keywords,
             alert_type = Some [], alert_message = Some [], reasoning = t,
             confidence = Finite (1 / 2)\<rparr>, [])
      else (case json_loads L (json_substring t) of
              Inl e \<Rightarrow>
                (\<lparr>raw_response = t, is_danger = False, alert_type = Some [],
                  alert_message = Some [], reasoning = t, confidence = Finite (1 / 2)\<rparr>,
                 [handler_log e])
            | Inr (JObj d) \<Rightarrow>
                (case py_float L (dict_get d (ascii ''confidence'') (JFloat (Finite (1 / 2)))) of
                   Inl e \<Rightarrow>
                     (\<lparr>raw_response = t,
                       is_danger = py_bool (dict_get d (ascii ''is_danger'') (JBool False)),
                       alert_type = Some (py_str L (dict_get d (ascii ''alert_type'') (JStr []))),
                       alert_message =
                         Some (py_str L (dict_get d (ascii ''alert_message'') (JStr []))),
                       reasoning = t, confidence = Finite (1 / 2)\<rparr>,
                      [handler_log e])
                 | Inr c \<Rightarrow>
                     (\<lparr>raw_response = t,
                       is_danger = py_bool (dict_get d (ascii ''is_danger'') (JBool False)),
                       alert_type = Some (py_str L (dict_get d (ascii ''alert_type'') (JStr []))),
                       alert_message =
                         Some (py_str L (dict_get d (ascii ''alert_message'') (JStr []))),
                       reasoning = py_str L (dict_get d (ascii ''reasoning'') (JStr [])),
                       confidence = py_max (Finite 0) (py_min (Finite 1) c)\<rparr>,
                      []))
            | Inr other \<Rightarrow>
                (\<lparr>raw_response = t, is_danger = False, alert_type = Some [],
                  alert_message = Some [], reasoning = t, confidence = Finite (1 / 2)\<rparr>,
                 [handler_log (Raise AttributeError (ascii ''object has no attribute get''))])))"
proof (cases "json_bounds_found t")
  case False
  then show ?thesis by (simp add: parse_response_no_json keyword_fallback_fields)
next
  case True
  show ?thesis
  proof (cases "json_loads L (json_substring t)")
    case (Inl e)
    with True show ?thesis
      by (simp add: parse_response_try_log parse_try_json default_reasoning)
  next
    case (Inr v)
    show ?thesis
    proof (cases "\<exists>d. v = JObj d")
      case False
      with True Inr show ?thesis
        by (cases v) (simp_all add: parse_response_try_log parse_try_json default_reasoning)
    next
      case True
      then obtain d where v: "v = JObj d" by blast
      show ?thesis
      proof (cases "py_float L (dict_get d (ascii ''confidence'') (JFloat (Finite (1 / 2))))")
        case (Inl e)
        with \<open>json_bounds_found t\<close> Inr v show ?thesis
          by (simp add: parse_response_try_log parse_try_json extract_fields_error)
      next
        case (Inr c)
        with \<open>json_bounds_found t\<close> \<open>json_loads L (json_substring t) = Inr v\<close> v show ?thesis
          by (simp add: parse_response_try_log parse_try_json extract_fields_ok)
      qed
    qed
  qed
qed

lemma example_lib_loads: "json_loads example_lib = json_decode"
  by (simp add: example_lib_def)

lemma example_lib_lower: "str_lower example_lib = ascii_lower"
  by (simp add: example_lib_def)

text \<open>
  Claim C3, as amended. The condition of the source holds exactly when both braces occur
  in the cleaned text. When a brace is absent, the result has the raw text as reasoning
  and \<open>is_danger\<close> is true exactly when one of the four keywords occurs in the lower-cased
  raw text; the other fields keep their defaults. When both braces occur and decoding the
  text between them raises, the result has the raw text as reasoning and \<open>is_danger\<close>
  stays false: the handler does no keyword scan.
\<close>

theorem parse_response_keyword_fallback:
  "(json_bounds_found t \<longleftrightarrow>
      123 \<in> set (clean_response t) \<and> 125 \<in> set (clean_response t))
   \<and> (\<not> json_bounds_found t \<longrightarrow>
        parse_response L t =
          (\<lparr>raw_response = t,
            is_danger = list_ex (\<lambda>keyword. contains (str_lower L t) keyword) danger_keywords,
            alert_type = Some [], alert_message = Some [], reasoning = t,
            confidence = Finite (1 / 2)\<rparr>, []))
   \<and> (json_bounds_found t \<and> json_loads L (json_substring t) = Inl e \<longrightarrow>
        parse_response L t =
          (\<lparr>raw_response = t, is_danger = False, alert_type = Some [],
            alert_message = Some [], reasoning = t, confidence = Finite (1 / 2)\<rparr>,
           [handler_log e]))"
  using json_bounds_found_iff [of t] by (simp add: parse_response_total_aux)

theorem parse_response_keyword_fallback_witness:
  "\<not> json_bounds_found example_keyword
   \<and> is_danger (fst (parse_response example_lib example_keyword))
   \<and> reasoning (fst (parse_response example_lib example_keyword)) = example_keyword
   \<and> json_bounds_found example_undecodable
   \<and> json_loads example_lib (json_substring example_undecodable)
       = Inl (Raise JSONDecodeError (ascii ''Invalid JSON text''))
   \<and> \<not> is_danger (fst (parse_response example_lib example_undecodable))
   \<and> reasoning (fst (parse_response example_lib example_undecodable)) = example_undecodable"
proof -
  have a: "\<not> json_bounds_found example_keyword" by (rule example_keyword_bounds)
  have b: "json_bounds_found example_undecodable"
    and c: "json_loads example_lib (json_substring example_undecodable)
              = Inl (Raise JSONDecodeError (ascii ''Invalid JSON text''))"
    using example_undecodable_bounds example_undecodable_decode
    by (simp_all add: example_lib_loads)
  from parse_response_keyword_fallback [of example_keyword example_lib] a example_keyword_scan
  have d: "is_danger (fst (parse_response example_lib example_keyword))
           \<and> reasoning (fst (parse_response example_lib example_keyword)) = example_keyword"
    by (simp add: example_lib_lower)
  from parse_response_keyword_fallback
         [of example_undecodable example_lib "Raise JSONDecodeError (ascii ''Invalid JSON text'')"]
       b c
  have e: "\<not> is_danger (fst (parse_response example_lib example_undecodable))
           \<and> reasoning (fst (parse_response example_lib example_undecodable))
               = example_undecodable"
    by simp
  from a b c d e show ?thesis by simp
qed

text \<open>
  The claim C3 as stated fails on the text \<open>{danger}\<close>: decoding raises and the keyword
  \<open>danger\<close> occurs in the text, yet \<open>is_danger\<close> is false.
\<close>

theorem decode_error_skips_keyword_scan:
  "isl (json_loads example_lib (json_substring example_undecodable))
   \<and> list_ex (\<lambda>keyword. contains (str_lower example_lib example_undecodable) keyword)
        danger_keywords
   \<and> \<not> is_danger (fst (parse_response example_lib example_undecodable))"
  using example_undecodable_bounds example_undecodable_decode example_undecodable_scan
  by (simp add: parse_response_total_aux example_lib_loads example_lib_lower)

text \<open>
  Claim C8, as amended. \<open>_parse_response\<close> returns a result dictionary for every text
  and every behaviour of the library, and raises nothing: the equation gives the result in
  each of the five cases. After an exception the reasoning is the raw text and the
  exception goes to the log only; the fields assigned before the exception keep their
  values (an exception of the conversion of the confidence leaves \<open>is_danger\<close>,
  \<open>alert_type\<close> and \<open>alert_message\<close> as extracted), and the other fields keep the defaults.
\<close>

theorem parse_response_total:
  "parse_response L t =
     (if \<not> json_bounds_found t
      then (\<lparr>raw_response = t,
             is_danger = list_ex (\<lambda>keyword. contains (str_lower L t) keyword) danger_keywords,
             alert_type = Some [], alert_message = Some [], reasoning = t,
             confidence = Finite (1 / 2)\<rparr>, [])
      else (case json_loads L (json_substring t) of
              Inl e \<Rightarrow>
                (\<lparr>raw_response = t, is_danger = False, alert_type = Some [],
                  alert_message = Some [], reasoning = t, confidence = Finite (1 / 2)\<rparr>,
                 [handler_log e])
            | Inr (JObj d) \<Rightarrow>
                (case py_float L (dict_get d (ascii ''confidence'') (JFloat (Finite (1 / 2)))) of
                   Inl e \<Rightarrow>
                     (\<lparr>raw_response = t,
                       is_danger = py_bool (dict_get d (ascii ''is_danger'') (JBool False)),
                       alert_type = Some (py_str L (dict_get d (ascii ''alert_type'') (JStr []))),
                       alert_message =
                         Some (py_str L (dict_get d (ascii ''alert_message'') (JStr []))),
                       reasoning = t, confidence = Finite (1 / 2)\<rparr>,
                      [handler_log e])
                 | Inr c \<Rightarrow>
                     (\<lparr>raw_response = t,
                       is_danger = py_bool (dict_get d (ascii ''is_danger'') (JBool False)),
                       alert_type = Some (py_str L (dict_get d (ascii ''alert_type'') (JStr []))),
                       alert_message =
                         Some (py_str L (dict_get d (ascii ''alert_message'') (JStr []))),
                       reasoning = py_str L (dict_get d (ascii ''reasoning'') (JStr [])),
                       confidence = py_max (Finite 0) (py_min (Finite 1) c)\<rparr>,
                      []))
            | Inr other \<Rightarrow>
                (\<lparr>raw_response = t, is_danger = False, alert_type = Some [],
                  alert_message = Some [], reasoning = t, confidence = Finite (1 / 2)\<rparr>,
                 [handler_log (Raise AttributeError (ascii ''object has no attribute get''))])))"
  by (rule parse_response_total_aux)

lemma example_null_float:
  "py_float example_lib (dict_get [(ascii ''is_danger'', JBool True), (ascii ''confidence'', JNull)]
      (ascii ''confidence'') (JFloat (Finite (1 / 2))))
   = Inl (Raise TypeError (ascii ''float() argument must be a string or a real number''))"
  by (simp add: py_float_def dict_get_def ascii_def)

lemma example_null_danger:
  "py_bool (dict_get [(ascii ''is_danger'', JBool True), (ascii ''confidence'', JNull)]
      (ascii ''is_danger'') (JBool False))"
  by (simp add: dict_get_def ascii_def)

lemma example_null_result:
  "parse_response example_lib example_null_confidence =
     (\<lparr>raw_response = example_null_confidence, is_danger = True, alert_type = Some [],
       alert_message = Some [], reasoning = example_null_confidence,
       confidence = Finite (1 / 2)\<rparr>,
      [ParseFailed
         (Raise TypeError (ascii ''float() argument must be a string or a real number''))])"
  using example_null_bounds example_null_decode example_null_float example_null_danger
  by (simp add: parse_response_total_aux example_lib_loads handler_log_def)
     (simp add: py_str_def dict_get_def ascii_def)

theorem parse_response_total_witness:
  "parse_response example_lib example_null_confidence =
     (\<lparr>raw_response = example_null_confidence, is_danger = True, alert_type = Some [],
       alert_message = Some [], reasoning = example_null_confidence,
       confidence = Finite (1 / 2)\<rparr>,
      [ParseFailed
         (Raise TypeError (ascii ''float() argument must be a string or a real number''))])"
  using parse_response_total [of example_lib example_null_confidence]
    example_null_bounds example_null_decode example_null_float example_null_danger
  by (simp add: example_lib_loads handler_log_def)
     (simp add: py_str_def dict_get_def ascii_def)

text \<open>
  The claim C8 as stated fails on an object with \<open>is_danger\<close> true and a confidence of
  \<open>null\<close>: the body of the \<open>try\<close> raises, yet \<open>is_danger\<close> is true in the result, which is
  not the safe default, and the reasoning is the raw text while the exception is in the
  log.
\<close>

theorem internal_error_keeps_extracted_fields:
  "isl (parse_try example_lib example_null_confidence (default_result example_null_confidence))
   \<and> is_danger (fst (parse_response example_lib example_null_confidence))
   \<and> reasoning (fst (parse_response example_lib example_null_confidence))
       = example_null_confidence
   \<and> snd (parse_response example_lib example_null_confidence) =
       [ParseFailed
          (Raise TypeError (ascii ''float() argument must be a string or a real number''))]"
proof -
  have "parse_try example_lib example_null_confidence (default_result example_null_confidence)
        = extract_fields example_lib
            [(ascii ''is_danger'', JBool True), (ascii ''confidence'', JNull)]
            (default_result example_null_confidence)"
    using example_null_bounds example_null_decode
    by (simp add: parse_try_json example_lib_loads)
  then have "isl (parse_try example_lib example_null_confidence
                    (default_result example_null_confidence))"
    using example_null_float by (simp add: extract_fields_error)
  then show ?thesis by (simp add: example_null_result)
qed

lemma example_clamped_result:
  "parse_response example_lib example_clamped =
     (\<lparr>raw_response = example_clamped, is_danger = True, alert_type = Some [],
       alert_message = Some [], reasoning = ascii ''x'', confidence = Finite 1\<rparr>, [])"
  using example_clamped_bounds example_clamped_decode
  by (simp add: parse_response_total_aux example_lib_loads)
     (simp add: py_float_def py_str_def dict_get_def ascii_def py_max_def py_min_def)

text \<open>
  Claim C7. On a text whose braces enclose a JSON object with a confidence that converts
  to a float, the result holds the extracted fields with the confidence clamped by
  \<open>max(0.0, min(1.0, c))\<close>, which lies in [0, 1]; a field whose key is missing has its
  default (false, the empty string, 0.5). The confidence of every result, of any text,
  lies in [0, 1]. The text of the specification with a confidence of 1.5 yields a
  confidence of 1 and \<open>is_danger\<close> true.
\<close>

theorem parse_response_well_formed:
  assumes "json_bounds_found t"
    and "json_loads L (json_substring t) = Inr (JObj d)"
    and "py_float L (dict_get d (ascii ''confidence'') (JFloat (Finite (1 / 2)))) = Inr c"
  shows "parse_response L t =
       (\<lparr>raw_response = t,
         is_danger = py_bool (dict_get d (ascii ''is_danger'') (JBool False)),
         alert_type = Some (py_str L (dict_get d (ascii ''alert_type'') (JStr []))),
         alert_message = Some (py_str L (dict_get d (ascii ''alert_message'') (JStr []))),
         reasoning = py_str L (dict_get d (ascii ''reasoning'') (JStr [])),
         confidence = py_max (Finite 0) (py_min (Finite 1) c)\<rparr>, [])
     \<and> in_unit_interval (confidence (fst (parse_response L t)))
     \<and> (ascii ''is_danger'' \<notin> fst ` set d \<longrightarrow> \<not> is_danger (fst (parse_response L t)))
     \<and> (ascii ''alert_type'' \<notin> fst ` set d \<longrightarrow>
          alert_type (fst (parse_response L t)) = Some [])
     \<and> (ascii ''alert_message'' \<notin> fst ` set d \<longrightarrow>
          alert_message (fst (parse_response L t)) = Some [])
     \<and> (ascii ''reasoning'' \<notin> fst ` set d \<longrightarrow> reasoning (fst (parse_response L t)) = [])
     \<and> (ascii ''confidence'' \<notin> fst ` set d \<longrightarrow>
          confidence (fst (parse_response L t)) = Finite (1 / 2))
     \<and> in_unit_interval (confidence (fst (parse_response L t')))
     \<and> parse_response example_lib example_clamped =
         (\<lparr>raw_response = example_clamped, is_danger = True, alert_type = Some [],
           alert_message = Some [], reasoning = ascii ''x'', confidence = Finite 1\<rparr>, [])"
proof -
  have r: "parse_response L t =
       (\<lparr>raw_response = t,
         is_danger = py_bool (dict_get d (ascii ''is_danger'') (JBool False)),
         alert_type = Some (py_str L (dict_get d (ascii ''alert_type'') (JStr []))),
         alert_message = Some (py_str L (dict_get d (ascii ''alert_message'') (JStr []))),
         reasoning = py_str L (dict_get d (ascii ''reasoning'') (JStr [])),
         confidence = py_max (Finite 0) (py_min (Finite 1) c)\<rparr>, [])"
    using assms by (rule parse_response_object_ok)
  have conf: "ascii ''confidence'' \<notin> fst ` set d \<longrightarrow>
          confidence (fst (parse_response L t)) = Finite (1 / 2)"
  proof
    assume "ascii ''confidence'' \<notin> fst ` set d"
    then have "dict_get d (ascii ''confidence'') (JFloat (Finite (1 / 2))) = JFloat (Finite (1 / 2))"
      by (rule dict_get_missing)
    with assms(3) have "c = Finite (1 / 2)" by (simp add: py_float_def)
    then show "confidence (fst (parse_response L t)) = Finite (1 / 2)"
      by (simp add: r py_max_def py_min_def)
  qed
  show ?thesis
    using conf parse_response_confidence [of L t] parse_response_confidence [of L t']
      example_clamped_result
    by (simp add: r dict_get_missing py_str_def)
qed

theorem parse_response_well_formed_witness:
  "json_bounds_found example_clamped
   \<and> json_loads example_lib (json_substring example_clamped) =
       Inr (JObj [(ascii ''is_danger'', JBool True),
                  (ascii ''confidence'', JFloat (Finite (3 / 2))),
                  (ascii ''reasoning'', JStr (ascii ''x''))])
   \<and> py_float example_lib
        (dict_get [(ascii ''is_danger'', JBool True),
                   (ascii ''confidence'', JFloat (Finite (3 / 2))),
                   (ascii ''reasoning'', JStr (ascii ''x''))]
           (ascii ''confidence'') (JFloat (Finite (1 / 2)))) = Inr (Finite (3 / 2))
   \<and> confidence (fst (parse_response example_lib example_clamped)) = Finite 1
   \<and> is_danger (fst (parse_response example_lib example_clamped))
   \<and> alert_type (fst (parse_response example_lib example_clamped)) = Some []
   \<and> alert_message (fst (parse_response example_lib example_clamped)) = Some []"
proof -
  have a: "json_bounds_found example_clamped"
    and b: "json_loads example_lib (json_substring example_clamped) =
       Inr (JObj [(ascii ''is_danger'', JBool True),
                  (ascii ''confidence'', JFloat (Finite (3 / 2))),
                  (ascii ''reasoning'', JStr (ascii ''x''))])"
    using example_clamped_bounds example_clamped_decode by (simp_all add: example_lib_loads)
  have c: "py_float example_lib
        (dict_get [(ascii ''is_danger'', JBool True),
                   (ascii ''confidence'', JFloat (Finite (3 / 2))),
                   (ascii ''reasoning'', JStr (ascii ''x''))]
           (ascii ''confidence'') (JFloat (Finite (1 / 2)))) = Inr (Finite (3 / 2))"
    by (simp add: py_float_def dict_get_def ascii_def)
  note w = parse_response_well_formed [OF a b c, of example_clamped, THEN conjunct1]
  have r: "parse_response example_lib example_clamped =
         (\<lparr>raw_response = example_clamped, is_danger = True, alert_type = Some [],
           alert_message = Some [], reasoning = ascii ''x'', confidence = Finite 1\<rparr>, [])"
    unfolding w by (simp add: py_str_def dict_get_def ascii_def py_max_def py_min_def)
  have "confidence (fst (parse_response example_lib example_clamped)) = Finite 1
    \<and> is_danger (fst (parse_response example_lib example_clamped))
    \<and> alert_type (fst (parse_response example_lib example_clamped)) = Some []
    \<and> alert_message (fst (parse_response example_lib example_clamped)) = Some []"
    by (simp add: r)
  with a b c show ?thesis by simp
qed

text \<open>
  Claim C10. When the text between the braces decodes to an object and the conversion of
  its confidence to a float raises, the result keeps \<open>is_danger\<close>, \<open>alert_type\<close> and
  \<open>alert_message\<close> as extracted from the object, its confidence is the default 0.5, its
  reasoning is the raw response text, and the exception is logged, not raised.
\<close>

theorem parse_response_unconvertible_confidence:
  assumes "json_bounds_found t"
    and "json_loads L (json_substring t) = Inr (JObj d)"
    and "py_float L (dict_get d (ascii ''confidence'') (JFloat (Finite (1 / 2)))) = Inl e"
  shows "parse_response L t =
       (\<lparr>raw_response = t,
         is_danger = py_bool (dict_get d (ascii ''is_danger'') (JBool False)),
         alert_type = Some (py_str L (dict_get d (ascii ''alert_type'') (JStr []))),
         alert_message = Some (py_str L (dict_get d (ascii ''alert_message'') (JStr []))),
         reasoning = t,
         confidence = Finite (1 / 2)\<rparr>,
        [handler_log e])"
  using assms by (simp add: parse_response_total_aux)

theorem parse_response_unconvertible_confidence_witness:
  "json_bounds_found example_null_confidence
   \<and> json_loads example_lib (json_substring example_null_confidence) =
       Inr (JObj [(ascii ''is_danger'', JBool True), (ascii ''confidence'', JNull)])
   \<and> py_float example_lib
        (dict_get [(ascii ''is_danger'', JBool True), (ascii ''confidence'', JNull)]
           (ascii ''confidence'') (JFloat (Finite (1 / 2))))
       = Inl (Raise TypeError (ascii ''float() argument must be a string or a real number''))
   \<and> parse_response example_lib example_null_confidence =
       (\<lparr>raw_response = example_null_confidence, is_danger = True, alert_type = Some [],
         alert_message = Some [], reasoning = example_null_confidence,
         confidence = Finite (1 / 2)\<rparr>,
        [ParseFailed
           (Raise TypeError (ascii ''float() argument must be a string or a real number''))])"
proof -
  have a: "json_bounds_found example_null_confidence"
    and b: "json_loads example_lib (json_substring example_null_confidence) =
       Inr (JObj [(ascii ''is_danger'', JBool True), (ascii ''confidence'', JNull)])"
    using example_null_bounds example_null_decode by (simp_all add: example_lib_loads)
  note c = example_null_float
  from parse_response_unconvertible_confidence [OF a b c]
  have "parse_response example_lib example_null_confidence =
       (\<lparr>raw_response = example_null_confidence, is_danger = True, alert_type = Some [],
         alert_message = Some [], reasoning = example_null_confidence,
         confidence = Finite (1 / 2)\<rparr>,
        [ParseFailed
           (Raise TypeError (ascii ''float() argument must be a string or a real number''))])"
    using example_null_danger
    by (simp add: handler_log_def) (simp add: py_str_def dict_get_def ascii_def)
  with a b c show ?thesis by simp
qed

section \<open>Properties of the analysis dispatcher\<close>

lemma submit_task_not_full:
  "\<not> full (task_queue w) \<Longrightarrow>
   submit_task w frame query time_now =
     w\<lparr>task_queue := (task_queue w)\<lparr>items := items (task_queue w)
           @ [new_task (frame, query, time_now)]\<rparr>\<rparr>"
  by (simp add: submit_task_def put_nowait_def new_task_def)

lemma submit_task_full:
  "full (task_queue w) \<Longrightarrow>
   submit_task w frame query time_now = w\<lparr>logged := logged w @ [TaskQueueFull]\<rparr>"
  by (simp add: submit_task_def put_nowait_def)

lemma submit_tasks_full:
  "full (task_queue w) \<Longrightarrow>
   submit_tasks w ts = w\<lparr>logged := logged w @ replicate (length ts) TaskQueueFull\<rparr>"
proof (induction ts arbitrary: w)
  case Nil
  then show ?case by simp
next
  case (Cons a ts)
  obtain frame query time_now where a: "a = (frame, query, time_now)" by (cases a)
  have "full (task_queue (w\<lparr>logged := logged w @ [TaskQueueFull]\<rparr>))"
    using Cons.prems by simp
  from Cons.IH [OF this] Cons.prems show ?case
    by (simp add: a submit_task_full replicate_app_Cons_same)
qed

lemma submit_task_bounded:
  "0 < maxsize (task_queue w) \<Longrightarrow> int (qsize (task_queue w)) \<le> maxsize (task_queue w) \<Longrightarrow>
   maxsize (task_queue (submit_task w frame query time_now)) = maxsize (task_queue w)
   \<and> int (qsize (task_queue (submit_task w frame query time_now))) \<le> maxsize (task_queue w)"
  by (auto simp: submit_task_def put_nowait_def full_def qsize_def)

lemma submit_tasks_bounded:
  "0 < maxsize (task_queue w) \<Longrightarrow> int (qsize (task_queue w)) \<le> maxsize (task_queue w) \<Longrightarrow>
   maxsize (task_queue (submit_tasks w ts)) = maxsize (task_queue w)
   \<and> int (qsize (task_queue (submit_tasks w ts))) \<le> maxsize (task_queue w)"
proof (induction ts arbitrary: w)
  case Nil
  then show ?case by simp
next
  case (Cons a ts)
  obtain frame query time_now where a: "a = (frame, query, time_now)" by (cases a)
  from submit_task_bounded [OF Cons.prems, of frame query time_now]
  have m: "maxsize (task_queue (submit_task w frame query time_now)) = maxsize (task_queue w)"
    and b: "int (qsize (task_queue (submit_task w frame query time_now)))
              \<le> maxsize (task_queue w)"
    by simp_all
  from Cons.IH [of "submit_task w frame query time_now"] m b Cons.prems(1)
  show ?case by (simp add: a)
qed

lemma submit_tasks_unbounded:
  "maxsize (task_queue w) \<le> 0 \<Longrightarrow>
   submit_tasks w ts =
     w\<lparr>task_queue := (task_queue w)\<lparr>items := items (task_queue w) @ map new_task ts\<rparr>\<rparr>"
proof (induction ts arbitrary: w)
  case Nil
  then show ?case by simp
next
  case (Cons a ts)
  obtain frame query time_now where a: "a = (frame, query, time_now)" by (cases a)
  have nf: "\<not> full (task_queue w)" using Cons.prems by (simp add: full_def)
  let ?w = "submit_task w frame query time_now"
  have "maxsize (task_queue ?w) \<le> 0"
    using Cons.prems by (simp add: submit_task_not_full [OF nf])
  from Cons.IH [OF this] show ?case
    by (simp add: a submit_task_not_full [OF nf])
qed

text \<open>
  Claim C2. \<open>submit_task\<close> makes one call of \<open>put_nowait\<close> and returns: it never waits.
  On a queue that is not full it enqueues the task; on a full queue its only effect is the
  warning, and so is the effect of any number of submissions in a row: nothing is
  retained beyond the tasks already queued. A bounded queue that holds at most its
  capacity holds at most its capacity after any submissions. The queue that \<open>__init__\<close>
  creates is unbounded, so it is never full: there every submitted task is retained and
  no warning is logged.
\<close>

theorem submit_task_never_blocks:
  "(\<not> full (task_queue w) \<longrightarrow>
      submit_task w frame query time_now =
        w\<lparr>task_queue := (task_queue w)\<lparr>items := items (task_queue w)
              @ [new_task (frame, query, time_now)]\<rparr>\<rparr>)
   \<and> (full (task_queue w) \<longrightarrow>
        submit_task w frame query time_now = w\<lparr>logged := logged w @ [TaskQueueFull]\<rparr>
        \<and> submit_tasks w ts = w\<lparr>logged := logged w @ replicate (length ts) TaskQueueFull\<rparr>)
   \<and> (0 < maxsize (task_queue w) \<and> int (qsize (task_queue w)) \<le> maxsize (task_queue w) \<longrightarrow>
        int (qsize (task_queue (submit_tasks w ts))) \<le> maxsize (task_queue w))
   \<and> submit_tasks worker_init ts =
       worker_init\<lparr>task_queue := \<lparr>maxsize = 0, items = map new_task ts\<rparr>\<rparr>"
proof -
  have "submit_tasks (worker_init :: 'a worker) ts =
       worker_init\<lparr>task_queue := \<lparr>maxsize = 0, items = map new_task ts\<rparr>\<rparr>"
    using submit_tasks_unbounded [of "worker_init :: 'a worker" ts]
    by (simp add: worker_init_def Queue_def)
  then show ?thesis
    using submit_tasks_bounded [of w ts]
    by (simp add: submit_task_not_full submit_task_full submit_tasks_full)
qed

theorem submit_task_never_blocks_witness:
  "full (task_queue bounded_worker)
   \<and> submit_task bounded_worker 30 prompt 102 =
       bounded_worker\<lparr>logged := [TaskQueueFull]\<rparr>
   \<and> submit_tasks bounded_worker [(30, prompt, 102), (40, prompt, 103), (50, prompt, 104)] =
       bounded_worker\<lparr>logged := [TaskQueueFull, TaskQueueFull, TaskQueueFull]\<rparr>
   \<and> qsize (task_queue (submit_tasks bounded_worker
         [(30, prompt, 102), (40, prompt, 103), (50, prompt, 104)])) = 2
   \<and> \<not> full (task_queue (worker_init :: nat worker))
   \<and> items (task_queue (submit_task (worker_init :: nat worker) 30 prompt 102))
       = [new_task (30, prompt, 102)]"
proof -
  have f: "full (task_queue bounded_worker)"
    by (simp add: bounded_worker_def full_def qsize_def)
  have l: "logged bounded_worker = []"
    by (simp add: bounded_worker_def worker_init_def)
  have q: "qsize (task_queue bounded_worker) = 2"
    by (simp add: bounded_worker_def qsize_def)
  have nf: "\<not> full (task_queue (worker_init :: nat worker))"
    by (simp add: worker_init_def Queue_def full_def)
  note t = submit_task_never_blocks
             [of bounded_worker 30 prompt 102
                 "[(30, prompt, 102), (40, prompt, 103), (50, prompt, 104)]"]
  note u = submit_task_never_blocks [of "worker_init :: nat worker" 30 prompt 102 "[]"]
  have a: "submit_task bounded_worker 30 prompt 102 =
       bounded_worker\<lparr>logged := [TaskQueueFull]\<rparr>"
    and b: "submit_tasks bounded_worker [(30, prompt, 102), (40, prompt, 103), (50, prompt, 104)]
       = bounded_worker\<lparr>logged := [TaskQueueFull, TaskQueueFull, TaskQueueFull]\<rparr>"
    using t f l by (simp_all add: numeral_3_eq_3 del: submit_tasks.simps)
  have c: "items (task_queue (submit_task (worker_init :: nat worker) 30 prompt 102))
       = [new_task (30, prompt, 102)]"
    using u nf by (simp add: worker_init_def Queue_def)
  from f a b q nf c show ?thesis by (simp del: submit_tasks.simps)
qed

lemma publish_unbounded:
  "\<not> full (result_queue w) \<Longrightarrow>
   publish w r =
     Some (w\<lparr>result_queue := (result_queue w)\<lparr>items := items (result_queue w) @ [r]\<rparr>,
             callback_calls := (if callback w then callback_calls w @ [r] else callback_calls w)\<rparr>)"
  by (simp add: publish_def put_def)

lemma error_result_safe:
  "\<not> is_danger (error_result e) \<and> confidence (error_result e) = Finite 0
   \<and> reasoning (error_result e) \<noteq> []
   \<and> reasoning (error_result e)
       = [65, 80, 73, 32, 35843, 29992, 20986, 38169, 58, 32] @ exc_str e"
  by (simp add: error_result_def)

lemma gemini_transport_failure:
  assumes "items (task_queue w) = task # rest" and "\<not> full (result_queue w)"
  shows "gemini_iteration L w (Inl e) =
     Some (w\<lparr>task_queue := (task_queue w)\<lparr>items := rest\<rparr>,
             result_queue := (result_queue w)\<lparr>items := items (result_queue w) @ [error_result e]\<rparr>,
             callback_calls := (if callback w then callback_calls w @ [error_result e]
                                else callback_calls w),
             logged := logged w @ [SendingRequest, RequestFailed e]\<rparr>)"
  using assms by (simp add: gemini_iteration_def get_nowait_def publish_unbounded)

lemma gemini_loop_continues:
  assumes "items (task_queue w) = task # rest" and "\<not> full (result_queue w)"
    and "running w"
  shows "gemini_loop L w (Inl e # outcomes) =
     gemini_loop L
       (w\<lparr>task_queue := (task_queue w)\<lparr>items := rest\<rparr>,
          result_queue := (result_queue w)\<lparr>items := items (result_queue w) @ [error_result e]\<rparr>,
          callback_calls := (if callback w then callback_calls w @ [error_result e]
                             else callback_calls w),
          logged := logged w @ [SendingRequest, RequestFailed e]\<rparr>) outcomes"
  using assms by (simp add: gemini_transport_failure)

lemma network_transport_failure:
  assumes "items (task_queue w) = task # rest"
  shows "network_iteration L w (RequestRaised (Raise RequestException msg)) =
     Some (w\<lparr>task_queue := (task_queue w)\<lparr>items := rest\<rparr>,
             logged := logged w
               @ [SendingRequest, RequestFailed (Raise RequestException msg)]\<rparr>)"
  using assms by (simp add: network_iteration_def get_nowait_def)

lemma one_task_worker_eq:
  "one_task_worker =
     \<lparr>task_queue = \<lparr>maxsize = 0, items = [new_task (10, prompt, 100)]\<rparr>,
      result_queue = \<lparr>maxsize = 0, items = []\<rparr>, running = True, callback = True,
      callback_calls = [], logged = []\<rparr>"
  by (simp add: one_task_worker_def submit_task_def start_def worker_init_def Queue_def
      put_nowait_def full_def new_task_def)

text \<open>
  Claim C1 at a transport failure of the one task of a started worker.
  \<open>NetworkWorker\<close> logs the failure and produces no result: the result queue stays empty
  and the callback is not called. \<open>GeminiWorker\<close> produces the one error result, on the
  queue and through the callback. Both loops go on with the next task
  (\<open>network_transport_failure\<close>, \<open>gemini_loop_continues\<close>).
\<close>

theorem network_worker_drops_transport_failure:
  "network_iteration example_lib one_task_worker (RequestRaised connection_refused) =
     Some \<lparr>task_queue = \<lparr>maxsize = 0, items = []\<rparr>,
           result_queue = \<lparr>maxsize = 0, items = []\<rparr>, running = True, callback = True,
           callback_calls = [],
           logged = [SendingRequest, RequestFailed connection_refused]\<rparr>
   \<and> gemini_iteration example_lib one_task_worker (Inl connection_refused) =
     Some \<lparr>task_queue = \<lparr>maxsize = 0, items = []\<rparr>,
           result_queue = \<lparr>maxsize = 0, items = [error_result connection_refused]\<rparr>,
           running = True, callback = True,
           callback_calls = [error_result connection_refused],
           logged = [SendingRequest, RequestFailed connection_refused]\<rparr>"
proof -
  have t: "items (task_queue one_task_worker) = new_task (10, prompt, 100) # []"
    and nf: "\<not> full (result_queue one_task_worker)"
    by (simp_all add: one_task_worker_eq full_def)
  show ?thesis
    using network_transport_failure [OF t, of example_lib "ascii ''connection refused''"]
      gemini_transport_failure [OF t nf, of example_lib connection_refused]
    by (simp add: connection_refused_def one_task_worker_eq)
qed

section \<open>Properties of the monitor\<close>

lemma save_alert_image_eq:
  "save_alert_image m frame result is_cooldown stamp =
     m\<lparr>image_writes := image_writes m @ [evidence (alert_count m) is_cooldown stamp result frame]\<rparr>"
  by (simp add: save_alert_image_def evidence_def Let_def)

lemma trigger_alert_suppressed:
  assumes "t - last_alert_time m < alert_cooldown_seconds m"
  shows "trigger_alert m r fo t rs ts =
           m\<lparr>image_writes := image_writes m
                @ (case fo of
                     Some f \<Rightarrow>
                       if save_alert_images m then [evidence (alert_count m) True ts r f] else []
                   | None \<Rightarrow> [])\<rparr>"
  using assms
  by (simp add: trigger_alert_def save_alert_image_eq split: option.splits)

lemma trigger_alert_delivered:
  assumes "\<not> t - last_alert_time m < alert_cooldown_seconds m"
  shows "trigger_alert m r fo t rs ts =
           m\<lparr>last_alert_time := t, alert_count := alert_count m + 1,
             sent_alerts := sent_alerts m @ (if alert_notifier m then [alert_record r rs] else []),
             image_writes := image_writes m
                @ (case fo of
                     Some f \<Rightarrow>
                       if save_alert_images m then [evidence (alert_count m + 1) False ts r f]
                       else []
                   | None \<Rightarrow> [])\<rparr>"
  using assms
  by (simp add: trigger_alert_def save_alert_image_eq alert_record_def Let_def
      split: option.splits)







lemma decimal_digit: "n < 10 \<Longrightarrow> decimal n = [48 + n]"
  by (subst decimal.simps) simp

lemma fall_filename:
  "n < 10 \<Longrightarrow>
   alert_filename n c stamp fall_result =
     ascii ''alert_'' @ stamp @ [95, 48 + n] @ (if c then ascii ''_cooldown'' else [])
       @ ascii ''_person_fell_on_floor.jpg''"
  by (simp add: alert_filename_def Let_def decimal_digit fall_result_def replace_char_def
      ascii_def)



lemma trigger_alert_upload_frame:
  "network_worker (trigger_alert m result fo t rs ts) = network_worker m
   \<and> last_upload_time (trigger_alert m result fo t rs ts) = last_upload_time m
   \<and> cooldown_seconds (trigger_alert m result fo t rs ts) = cooldown_seconds m"
  by (cases "t - last_alert_time m < alert_cooldown_seconds m")
     (simp_all add: trigger_alert_suppressed trigger_alert_delivered)

lemma result_step_upload_frame:
  "task_queue (network_worker (result_step m frame clk)) = task_queue (network_worker m)
   \<and> last_upload_time (result_step m frame clk) = last_upload_time m
   \<and> cooldown_seconds (result_step m frame clk) = cooldown_seconds m"
proof (cases "get_result (network_worker m)")
  case (Pair ro w)
  have w: "task_queue w = task_queue (network_worker m)"
    using Pair by (auto simp: get_result_def split: sum.splits)
  show ?thesis
  proof (cases ro)
    case None
    with Pair w show ?thesis by (simp add: result_step_def)
  next
    case (Some result)
    with Pair w show ?thesis
      by (simp add: result_step_def Let_def trigger_alert_upload_frame save_alert_image_eq)
  qed
qed

lemma display_step_frame:
  "network_worker (display_step m clk) = network_worker m
   \<and> last_upload_time (display_step m clk) = last_upload_time m
   \<and> cooldown_seconds (display_step m clk) = cooldown_seconds m
   \<and> image_writes (display_step m clk) = image_writes m"
  by (simp add: display_step_def split: option.splits)

lemma run_iteration_upload:
  "task_queue (network_worker (run_iteration m frame drawn has_person clk)) =
     (if has_person \<and> cooldown_seconds m \<le> now clk - last_upload_time m
      then task_queue (submit_task (network_worker m) drawn prompt (submit_now clk))
      else task_queue (network_worker m))
   \<and> last_upload_time (run_iteration m frame drawn has_person clk) =
       (if has_person \<and> cooldown_seconds m \<le> now clk - last_upload_time m then now clk
        else last_upload_time m)
   \<and> cooldown_seconds (run_iteration m frame drawn has_person clk) = cooldown_seconds m"
  by (simp add: run_iteration_def Let_def display_step_frame result_step_upload_frame
      upload_step_def)

lemma submit_task_unbounded_queue:
  "maxsize (task_queue w) \<le> 0 \<Longrightarrow>
   task_queue (submit_task w frame query t) =
     (task_queue w)\<lparr>items := items (task_queue w) @ [new_task (frame, query, t)]\<rparr>"
  by (simp add: submit_task_def put_nowait_def full_def new_task_def)

lemma run_iteration_second:
  assumes e: "cooldown_seconds m \<le> now clk - last_upload_time m"
  shows "task_queue (network_worker
           (run_iteration ((run_iteration m frame drawn True clk)\<lparr>network_worker := w\<rparr>)
              frame' drawn' True clk')) =
         (if cooldown_seconds m \<le> now clk' - now clk
          then task_queue (submit_task w drawn' prompt (submit_now clk'))
          else task_queue w)"
proof -
  let ?m1 = "(run_iteration m frame drawn True clk)\<lparr>network_worker := w\<rparr>"
  have l1: "last_upload_time ?m1 = now clk" and c1: "cooldown_seconds ?m1 = cooldown_seconds m"
    using run_iteration_upload [of m frame drawn True clk] e by simp_all
  show ?thesis
    using run_iteration_upload [of ?m1 frame' drawn' True clk'] by (simp add: l1 c1)
qed

lemma run_iteration_twice:
  assumes e: "cooldown_seconds m \<le> now clk - last_upload_time m"
    and u: "maxsize (task_queue (network_worker m)) \<le> 0"
  shows "items (task_queue (network_worker
           (run_iteration (run_iteration m frame drawn True clk) frame' drawn' True clk'))) =
         items (task_queue (network_worker m))
           @ new_task (drawn, prompt, submit_now clk)
             # (if cooldown_seconds m \<le> now clk' - now clk
                then [new_task (drawn', prompt, submit_now clk')] else [])"
proof -
  let ?m1 = "run_iteration m frame drawn True clk"
  have q1: "task_queue (network_worker ?m1)
              = (task_queue (network_worker m))
                  \<lparr>items := items (task_queue (network_worker m))
                     @ [new_task (drawn, prompt, submit_now clk)]\<rparr>"
    using run_iteration_upload [of m frame drawn True clk] e
      submit_task_unbounded_queue [OF u, of drawn prompt "submit_now clk"] by simp
  have s1: "maxsize (task_queue (network_worker ?m1)) \<le> 0"
    using u by (simp add: q1)
  have "?m1\<lparr>network_worker := network_worker ?m1\<rparr> = ?m1" by simp
  then have "task_queue (network_worker (run_iteration ?m1 frame' drawn' True clk')) =
         (if cooldown_seconds m \<le> now clk' - now clk
          then task_queue (submit_task (network_worker ?m1) drawn' prompt (submit_now clk'))
          else task_queue (network_worker ?m1))"
    using run_iteration_second [OF e, where w = "network_worker ?m1" and frame = frame
        and drawn = drawn and frame' = frame' and drawn' = drawn' and clk' = clk']
    by simp
  then show ?thesis
    using submit_task_unbounded_queue [OF s1, of drawn' prompt "submit_now clk'"]
    by (simp add: q1)
qed

text \<open>
  Claim C4. In an iteration of the main loop at the time \<open>now\<close>, the frame (with the
  detections drawn) is submitted to the worker if and only if a person was detected and
  \<open>now - last_upload_time \<ge> cooldown_seconds\<close>; then \<open>last_upload_time\<close> becomes \<open>now\<close> in
  the same iteration, before any result arrives; otherwise the task queue and
  \<open>last_upload_time\<close> stay as they were. The rest of the iteration changes neither. For
  two frames with a person, the first of which passes the gate, the second is submitted
  if and only if the two readings of the clock are at least \<open>cooldown_seconds\<close> apart,
  whatever the worker thread did to the queues in between (\<open>w\<close>); on the unbounded task
  queue of the program, and with no task taken in between, the queue gains one task if
  the frames are closer than the cooldown and two otherwise.
\<close>

theorem upload_gate:
  "task_queue (network_worker (run_iteration m frame drawn has_person clk)) =
     (if has_person \<and> cooldown_seconds m \<le> now clk - last_upload_time m
      then task_queue (submit_task (network_worker m) drawn prompt (submit_now clk))
      else task_queue (network_worker m))
   \<and> last_upload_time (run_iteration m frame drawn has_person clk) =
       (if has_person \<and> cooldown_seconds m \<le> now clk - last_upload_time m then now clk
        else last_upload_time m)
   \<and> cooldown_seconds (run_iteration m frame drawn has_person clk) = cooldown_seconds m
   \<and> (cooldown_seconds m \<le> now clk - last_upload_time m \<longrightarrow>
        task_queue (network_worker
          (run_iteration ((run_iteration m frame drawn True clk)\<lparr>network_worker := w\<rparr>)
             frame' drawn' True clk')) =
        (if cooldown_seconds m \<le> now clk' - now clk
         then task_queue (submit_task w drawn' prompt (submit_now clk'))
         else task_queue w))
   \<and> (cooldown_seconds m \<le> now clk - last_upload_time m
        \<and> maxsize (task_queue (network_worker m)) \<le> 0 \<longrightarrow>
        items (task_queue (network_worker
          (run_iteration (run_iteration m frame drawn True clk) frame' drawn' True clk'))) =
        items (task_queue (network_worker m))
          @ new_task (drawn, prompt, submit_now clk)
            # (if cooldown_seconds m \<le> now clk' - now clk
               then [new_task (drawn', prompt, submit_now clk')] else []))"
  using run_iteration_upload [of m frame drawn has_person clk]
    run_iteration_second [where m = m and clk = clk and frame = frame and drawn = drawn
      and w = w and frame' = frame' and drawn' = drawn' and clk' = clk']
    run_iteration_twice [of m clk frame drawn frame' drawn' clk']
  by blast

theorem upload_gate_witness:
  "items (task_queue (network_worker
      (run_iteration (run_iteration (monitor_init 5) 10 11 True (clock_at 1700000000))
         20 21 True (clock_at 1700000003)))) =
     [new_task (11 :: nat, prompt, 1700000000)]
   \<and> items (task_queue (network_worker
      (run_iteration (run_iteration (monitor_init 5) 10 11 True (clock_at 1700000000))
         20 21 True (clock_at 1700000006)))) =
     [new_task (11 :: nat, prompt, 1700000000), new_task (21, prompt, 1700000006)]
   \<and> last_upload_time (run_iteration (monitor_init 5) (10 :: nat) 11 True (clock_at 1700000000))
       = 1700000000
   \<and> items (task_queue (network_worker
        (run_iteration (monitor_init 5) (10 :: nat) 11 False (clock_at 1700000000)))) = []
   \<and> items (task_queue (network_worker
        (run_iteration (monitor_init 5) (10 :: nat) 11 True (clock_at 3)))) = []
   \<and> items (task_queue (network_worker
        (run_iteration
           ((run_iteration (monitor_init 5) 10 11 True (clock_at 1700000000))
              \<lparr>network_worker := start worker_init True\<rparr>)
           20 21 True (clock_at 1700000006)))) =
       [new_task (21 :: nat, prompt, 1700000006)]"
proof -
  have h: "cooldown_seconds (monitor_init 5 :: nat monitor)
             \<le> now (clock_at 1700000000) - last_upload_time (monitor_init 5 :: nat monitor)
           \<and> maxsize (task_queue (network_worker (monitor_init 5 :: nat monitor))) \<le> 0"
    by (simp add: monitor_init_def start_def worker_init_def Queue_def clock_at_def)
  have i: "items (task_queue (network_worker (monitor_init 5 :: nat monitor))) = []"
    and c: "cooldown_seconds (monitor_init 5 :: nat monitor) = 5"
    and l: "last_upload_time (monitor_init 5 :: nat monitor) = 0"
    by (simp_all add: monitor_init_def start_def worker_init_def Queue_def)
  note a = upload_gate [of "monitor_init 5 :: nat monitor" 10 11 True "clock_at 1700000000"
      "network_worker (monitor_init 5)" 20 21 "clock_at 1700000003",
      THEN conjunct2, THEN conjunct2, THEN conjunct2, THEN conjunct2, THEN mp, OF h]
  note b = upload_gate [of "monitor_init 5 :: nat monitor" 10 11 True "clock_at 1700000000"
      "network_worker (monitor_init 5)" 20 21 "clock_at 1700000006",
      THEN conjunct2, THEN conjunct2, THEN conjunct2, THEN conjunct2, THEN mp, OF h]
  note d = upload_gate [of "monitor_init 5 :: nat monitor" 10 11 True "clock_at 1700000000",
      THEN conjunct2, THEN conjunct1]
  note e = upload_gate [of "monitor_init 5 :: nat monitor" 10 11 False "clock_at 1700000000",
      THEN conjunct1]
  note f = upload_gate [of "monitor_init 5 :: nat monitor" 10 11 True "clock_at 3",
      THEN conjunct1]
  note g = upload_gate [of "monitor_init 5 :: nat monitor" 10 11 True "clock_at 1700000000"
      "start worker_init True" 20 21 "clock_at 1700000006",
      THEN conjunct2, THEN conjunct2, THEN conjunct2, THEN conjunct1, THEN mp,
      OF h [THEN conjunct1]]
  have j: "task_queue (submit_task (start worker_init True) (21 :: nat) prompt 1700000006) =
             \<lparr>maxsize = 0, items = [new_task (21, prompt, 1700000006)]\<rparr>"
    using submit_task_unbounded_queue [of "start worker_init True" "21 :: nat" prompt 1700000006]
    by (simp add: start_def worker_init_def Queue_def)
  show ?thesis
    unfolding a b d e f g by (simp add: i c l j clock_at_def)
qed

lemma nat_of_digits_snoc: "nat_of_digits (ds @ [d]) = 10 * nat_of_digits ds + (d - 48)"
  by (simp add: nat_of_digits_def)

lemma nat_of_digits_decimal: "nat_of_digits (decimal n) = n"
proof (induction n rule: decimal.induct)
  case (1 n)
  show ?case
  proof (cases "n < 10")
    case True
    then show ?thesis by (subst decimal.simps) (simp add: nat_of_digits_def)
  next
    case False
    have "nat_of_digits (decimal n) = nat_of_digits (decimal (n div 10) @ [48 + n mod 10])"
      using False by (subst decimal.simps) simp
    also have "\<dots> = 10 * (n div 10) + n mod 10"
      using 1 [OF False] by (simp add: nat_of_digits_snoc)
    finally show ?thesis by simp
  qed
qed

lemma decimal_inj: "decimal a = decimal b \<Longrightarrow> a = b"
  by (metis nat_of_digits_decimal)

lemma evidence_paths_differ:
  assumes "length s1 = length s2"
  shows "path (evidence n False s1 r f) \<noteq> path (evidence n True s2 r g)"
    and "path (evidence n False s1 r f) \<noteq> path (evidence (n + 1) False s2 r g)"
proof -
  show "path (evidence n False s1 r f) \<noteq> path (evidence n True s2 r g)"
  proof
    assume "path (evidence n False s1 r f) = path (evidence n True s2 r g)"
    then have "length (path (evidence n False s1 r f :: 'a image_write))
                 = length (path (evidence n True s2 r g :: 'b image_write))"
      by simp
    then show False
      using assms by (simp add: evidence_def alert_filename_def Let_def ascii_def)
  qed
  show "path (evidence n False s1 r f) \<noteq> path (evidence (n + 1) False s2 r g)"
  proof
    assume "path (evidence n False s1 r f) = path (evidence (n + 1) False s2 r g)"
    then have "s1 @ (ascii ''_'' @ decimal n @ ascii ''_''
                 @ replace_char 47 95 (replace_char 32 95 (take 20 (reasoning r))) @ ascii ''.jpg'')
             = s2 @ (ascii ''_'' @ decimal (n + 1) @ ascii ''_''
                 @ replace_char 47 95 (replace_char 32 95 (take 20 (reasoning r))) @ ascii ''.jpg'')"
      by (simp add: evidence_def alert_filename_def Let_def)
    then have "decimal n = decimal (n + 1)"
      using assms by (simp add: ascii_def)
    then show False using decimal_inj by fastforce
  qed
qed

lemma upload_step_alert_frame:
  "result_queue (network_worker (upload_step m f hp clk)) = result_queue (network_worker m)
   \<and> image_writes (upload_step m f hp clk) = image_writes m
   \<and> alert_count (upload_step m f hp clk) = alert_count m
   \<and> last_alert_time (upload_step m f hp clk) = last_alert_time m
   \<and> alert_cooldown_seconds (upload_step m f hp clk) = alert_cooldown_seconds m
   \<and> save_alert_images (upload_step m f hp clk) = save_alert_images m"
  by (simp add: upload_step_def Let_def submit_task_def split: sum.splits)

lemma result_step_danger:
  assumes g: "get_nowait (result_queue (network_worker m)) = Inr (r, q)" and d: "is_danger r"
  shows "image_writes (result_step m f clk) =
           image_writes m
             @ (if save_alert_images m
                then [evidence (alert_count m) False (loop_stamp clk) r f,
                      if alert_now clk - last_alert_time m < alert_cooldown_seconds m
                      then evidence (alert_count m) True (trigger_stamp clk) r f
                      else evidence (alert_count m + 1) False (trigger_stamp clk) r f]
                else [])"
proof (cases "alert_now clk - last_alert_time m < alert_cooldown_seconds m")
  case True
  then show ?thesis
    using g d
    by (simp add: result_step_def get_result_def Let_def save_alert_image_eq
        trigger_alert_suppressed)
next
  case False
  then show ?thesis
    using g d
    by (simp add: result_step_def get_result_def Let_def save_alert_image_eq
        trigger_alert_delivered)
qed

lemma result_step_no_danger:
  "get_nowait (result_queue (network_worker m)) = Inl e
   \<or> (get_nowait (result_queue (network_worker m)) = Inr (r, q) \<and> \<not> is_danger r)
   \<Longrightarrow> image_writes (result_step m f clk) = image_writes m"
  by (auto simp: result_step_def get_result_def Let_def)

lemma run_iteration_writes:
  "image_writes (run_iteration m frame drawn has_person clk) =
     image_writes (result_step
        (upload_step
           (if has_person then m\<lparr>person_detection_count := person_detection_count m + 1\<rparr>
            else m)
           (if has_person then drawn else frame) has_person clk)
        (if has_person then drawn else frame) clk)"
  by (simp add: run_iteration_def Let_def display_step_frame)

lemma run_iteration_danger:
  assumes g: "get_nowait (result_queue (network_worker m)) = Inr (r, q)" and d: "is_danger r"
  shows "image_writes (run_iteration m frame drawn has_person clk) =
           image_writes m
             @ (if save_alert_images m
                then [evidence (alert_count m) False (loop_stamp clk) r
                        (if has_person then drawn else frame),
                      if alert_now clk - last_alert_time m < alert_cooldown_seconds m
                      then evidence (alert_count m) True (trigger_stamp clk) r
                             (if has_person then drawn else frame)
                      else evidence (alert_count m + 1) False (trigger_stamp clk) r
                             (if has_person then drawn else frame)]
                else [])"
proof -
  let ?m1 = "if has_person then m\<lparr>person_detection_count := person_detection_count m + 1\<rparr>
             else m"
  let ?f = "if has_person then drawn else frame"
  let ?m2 = "upload_step ?m1 ?f has_person clk"
  have g2: "get_nowait (result_queue (network_worker ?m2)) = Inr (r, q)"
    using g upload_step_alert_frame [of ?m1 ?f has_person clk] by simp
  have fr: "image_writes ?m2 = image_writes m" "alert_count ?m2 = alert_count m"
    "last_alert_time ?m2 = last_alert_time m"
    "alert_cooldown_seconds ?m2 = alert_cooldown_seconds m"
    "save_alert_images ?m2 = save_alert_images m"
    using upload_step_alert_frame [of ?m1 ?f has_person clk] by simp_all
  show ?thesis
    unfolding run_iteration_writes result_step_danger [OF g2 d] fr by simp
qed

lemma run_iteration_no_danger:
  assumes "get_nowait (result_queue (network_worker m)) = Inl e
   \<or> (get_nowait (result_queue (network_worker m)) = Inr (r, q) \<and> \<not> is_danger r)"
  shows "image_writes (run_iteration m frame drawn has_person clk) = image_writes m"
proof -
  let ?m1 = "if has_person then m\<lparr>person_detection_count := person_detection_count m + 1\<rparr>
             else m"
  let ?f = "if has_person then drawn else frame"
  let ?m2 = "upload_step ?m1 ?f has_person clk"
  have g2: "get_nowait (result_queue (network_worker ?m2)) = Inl e
   \<or> (get_nowait (result_queue (network_worker ?m2)) = Inr (r, q) \<and> \<not> is_danger r)"
    using assms upload_step_alert_frame [of ?m1 ?f has_person clk] by simp
  have fr: "image_writes ?m2 = image_writes m"
    using upload_step_alert_frame [of ?m1 ?f has_person clk] by simp
  show ?thesis
    unfolding run_iteration_writes result_step_no_danger [OF g2] fr by simp
qed

text \<open>
  Claim C9. In an iteration of the main loop that takes a danger result \<open>r\<close> from the
  result queue while \<open>save_alert_images\<close> is set, \<open>cv2.imwrite\<close> is called exactly twice,
  both times with the frame of the iteration: first by the main loop, with the untagged
  file name under the current alert count, then inside \<open>_trigger_alert\<close>, with the tagged
  name under the same count if the alert is suppressed by the cooldown, and with the
  untagged name under the incremented count if it is delivered. The two paths differ
  (the two values of \<open>time.strftime\<close> have the same length), so the second write does not
  replace the first file. With saving disabled, without a result, or with a result that
  is not a danger, the iteration writes no image.
\<close>

theorem danger_result_two_images:
  "(get_nowait (result_queue (network_worker m)) = Inr (r, q) \<and> is_danger r \<longrightarrow>
      image_writes (run_iteration m frame drawn has_person clk) =
        image_writes m
          @ (if save_alert_images m
             then [evidence (alert_count m) False (loop_stamp clk) r
                     (if has_person then drawn else frame),
                   if alert_now clk - last_alert_time m < alert_cooldown_seconds m
                   then evidence (alert_count m) True (trigger_stamp clk) r
                          (if has_person then drawn else frame)
                   else evidence (alert_count m + 1) False (trigger_stamp clk) r
                          (if has_person then drawn else frame)]
             else []))
   \<and> (length (loop_stamp clk) = length (trigger_stamp clk) \<longrightarrow>
        path (evidence n False (loop_stamp clk) r f)
          \<noteq> path (evidence n True (trigger_stamp clk) r f)
        \<and> path (evidence n False (loop_stamp clk) r f)
          \<noteq> path (evidence (n + 1) False (trigger_stamp clk) r f))
   \<and> (get_nowait (result_queue (network_worker m)) = Inl e
        \<or> (get_nowait (result_queue (network_worker m)) = Inr (r, q) \<and> \<not> is_danger r) \<longrightarrow>
        image_writes (run_iteration m frame drawn has_person clk) = image_writes m)"
  using run_iteration_danger [of m r q frame drawn has_person clk]
    evidence_paths_differ [of "loop_stamp clk" "trigger_stamp clk" n r f f]
    run_iteration_no_danger [of m e r q frame drawn has_person clk]
  by blast

theorem danger_result_two_images_witness:
  "map path (image_writes (run_iteration (fall_reported 0) 10 11 True (clock_at 1700000000))) =
     [ascii ''alerts/alert_20231114_221320_0_person_fell_on_floor.jpg'',
      ascii ''alerts/alert_20231114_221320_1_person_fell_on_floor.jpg'']
   \<and> map image (image_writes (run_iteration (fall_reported 0) 10 11 True (clock_at 1700000000)))
       = [11, 11]
   \<and> map path (image_writes
        (run_iteration (fall_reported 1699999999) 10 11 False (clock_at 1700000000))) =
     [ascii ''alerts/alert_20231114_221320_0_person_fell_on_floor.jpg'',
      ascii ''alerts/alert_20231114_221320_0_cooldown_person_fell_on_floor.jpg'']
   \<and> map image (image_writes
        (run_iteration (fall_reported 1699999999) 10 11 False (clock_at 1700000000))) = [10, 10]
   \<and> image_writes (run_iteration (monitor_init 5) (10 :: nat) 11 True (clock_at 1700000000)) = []
   \<and> path (evidence 0 False (loop_stamp (clock_at 1700000000)) fall_result (11 :: nat))
       \<noteq> path (evidence 0 True (trigger_stamp (clock_at 1700000000)) fall_result (11 :: nat))
   \<and> path (evidence 0 False (loop_stamp (clock_at 1700000000)) fall_result (11 :: nat))
       \<noteq> path (evidence (0 + 1) False (trigger_stamp (clock_at 1700000000)) fall_result
             (11 :: nat))"
proof -
  have len: "length (loop_stamp (clock_at 1700000000))
               = length (trigger_stamp (clock_at 1700000000))"
    by (simp add: clock_at_def)
  note d = danger_result_two_images
      [where clk = "clock_at 1700000000" and n = 0 and r = fall_result and f = "11 :: nat",
       THEN conjunct2, THEN conjunct1, THEN mp, OF len]
  have g: "get_nowait (result_queue (network_worker (fall_reported t))) =
             Inr (fall_result, \<lparr>maxsize = 0, items = []\<rparr>) \<and> is_danger fall_result" for t
    by (simp add: fall_reported_def get_nowait_def fall_result_def)
  have e: "get_nowait (result_queue (network_worker (monitor_init 5 :: nat monitor))) = Inl Empty
      \<or> (get_nowait (result_queue (network_worker (monitor_init 5 :: nat monitor)))
            = Inr (fall_result, \<lparr>maxsize = 0, items = []\<rparr>) \<and> \<not> is_danger fall_result)"
    by (simp add: monitor_init_def start_def worker_init_def Queue_def get_nowait_def)
  note a = danger_result_two_images
      [where m = "fall_reported 0" and r = fall_result and q = "\<lparr>maxsize = 0, items = []\<rparr>"
         and frame = 10 and drawn = 11 and has_person = True and clk = "clock_at 1700000000",
       THEN conjunct1, THEN mp, OF g]
  note b = danger_result_two_images
      [where m = "fall_reported 1699999999" and r = fall_result
         and q = "\<lparr>maxsize = 0, items = []\<rparr>"
         and frame = 10 and drawn = 11 and has_person = False and clk = "clock_at 1700000000",
       THEN conjunct1, THEN mp, OF g]
  note c = danger_result_two_images
      [where m = "monitor_init 5 :: nat monitor" and r = fall_result
         and q = "\<lparr>maxsize = 0, items = []\<rparr>" and e = Empty
         and frame = 10 and drawn = 11 and has_person = True and clk = "clock_at 1700000000",
       THEN conjunct2, THEN conjunct2, THEN mp, OF e]
  have s: "save_alert_images (fall_reported t) \<and> alert_count (fall_reported t) = 0
           \<and> image_writes (fall_reported t) = [] \<and> last_alert_time (fall_reported t) = t
           \<and> alert_cooldown_seconds (fall_reported t) = 2" for t
    by (simp add: fall_reported_def monitor_init_def)
  have i: "image_writes (monitor_init 5 :: nat monitor) = []"
    by (simp add: monitor_init_def)
  have "map path (image_writes (run_iteration (fall_reported 0) 10 11 True (clock_at 1700000000))) =
     [ascii ''alerts/alert_20231114_221320_0_person_fell_on_floor.jpg'',
      ascii ''alerts/alert_20231114_221320_1_person_fell_on_floor.jpg'']
   \<and> map image (image_writes (run_iteration (fall_reported 0) 10 11 True (clock_at 1700000000)))
       = [11, 11]
   \<and> map path (image_writes
        (run_iteration (fall_reported 1699999999) 10 11 False (clock_at 1700000000))) =
     [ascii ''alerts/alert_20231114_221320_0_person_fell_on_floor.jpg'',
      ascii ''alerts/alert_20231114_221320_0_cooldown_person_fell_on_floor.jpg'']
   \<and> map image (image_writes
        (run_iteration (fall_reported 1699999999) 10 11 False (clock_at 1700000000))) = [10, 10]
   \<and> image_writes (run_iteration (monitor_init 5) (10 :: nat) 11 True (clock_at 1700000000)) = []"
    unfolding a b c
    by (simp add: s i clock_at_def evidence_def fall_filename ascii_def)
  with d show ?thesis by blast
qed

end
